theory Spec2Isabelle
  imports Main
begin

section \<open>Python values and builtins used by the script\<close>

text \<open>
  The value returned by the correctness evaluation is an arbitrary Python object. The
  script compares it with \<^verbatim>\<open>is False\<close> and \<^verbatim>\<open>is True\<close>, which are identity tests:
  only the two singleton objects of type \<^verbatim>\<open>bool\<close> pass them. A numpy boolean, an
  integer or \<^verbatim>\<open>None\<close> is a different object.
\<close>

datatype pyval = PyBool bool | PyNone | PyInt int | NumpyBool bool

fun is_pybool :: "pyval \<Rightarrow> bool" where
  "is_pybool (PyBool b) = True"
| "is_pybool v = False"

datatype error = ValueError string

text \<open>
  \<^verbatim>\<open>range(start, stop, step)\<close> for a positive step, the only kind the script uses
  (\<^verbatim>\<open>range(700, 1300 + 1, 100)\<close> and \<^verbatim>\<open>range(num_repetitions)\<close>).
\<close>

function py_range :: "int \<Rightarrow> int \<Rightarrow> int \<Rightarrow> int list" where
  "py_range start stop step =
     (if 0 < step \<and> start < stop then start # py_range (start + step) stop step else [])"
  by pat_completeness auto
termination
  by (relation "measure (\<lambda>(start, stop, step). nat (stop - start))") auto

declare py_range.simps [simp del]

text \<open>The decimal rendering of an integer inside an f-string.\<close>

definition digit_char :: "nat \<Rightarrow> char" where
  "digit_char d = ''0123456789'' ! d"

fun str_nat :: "nat \<Rightarrow> string" where
  "str_nat k = (if k < 10 then [digit_char k] else str_nat (k div 10) @ [digit_char (k mod 10)])"

declare str_nat.simps [simp del]

definition str_int :: "int \<Rightarrow> string" where
  "str_int i = (if i < 0 then CHR ''-'' # str_nat (nat (- i)) else str_nat (nat i))"

section \<open>Result records, external calls and the world\<close>

text \<open>The dictionary \<^verbatim>\<open>outputs\<close> built at each grid point (lines 168-176).\<close>

record ('s, 't) outputs =
  test_index :: nat
  num_samples :: int
  batch_size :: int
  repetition :: int
  s_test :: "'s list"
  time_elapsed :: 't
  correct :: pyval

datatype dataset = TrainDataset | EvalDataset

text \<open>
  Every call that leaves \<^verbatim>\<open>s_test_speedup.py\<close> is logged as an event, in program order.
  Loaders are named by a number.
\<close>

datatype ('x, 's, 't) event =
    CreateTokenizerAndModel
  | CreateDatasets
  | GetDataloader dataset int bool nat
  | CreateTrainer
  | ModelCuda
  | NextEvalInstance nat
  | IsPredictionCorrect nat 'x
  | InputsToCuda nat
  | ComputeSTest nat 'x int "string list" "string list"
  | SaveAndMirror "('s, 't) outputs" string

record ('x, 's, 't) world =
  trace :: "('x, 's, 't) event list"
  next_loader :: nat

definition init_world :: "('x, 's, 't) world" where
  "init_world = \<lparr>trace = [], next_loader = 0\<rparr>"

text \<open>
  What the helpers outside \<^verbatim>\<open>s_test_speedup.py\<close> compute is a parameter of the model:
  the evaluation instances in loader order, the model's named parameters with their
  \<^verbatim>\<open>requires_grad\<close> flag, the correctness evaluation, the move of an instance's tensors
  to the device, the estimator (its result may depend on the loader it is given), the
  move of a tensor to host memory, and the timer reading (indexed by the number of
  events logged when the timed block is left).
\<close>

record ('x, 's, 't) env =
  eval_instances :: "'x list"
  named_parameters :: "(string \<times> bool) list"
  is_prediction_correct :: "'x \<Rightarrow> pyval"
  to_cuda :: "'x \<Rightarrow> 'x"
  compute_s_test :: "'x \<Rightarrow> nat \<Rightarrow> int \<Rightarrow> 's list"
  cpu :: "'s \<Rightarrow> 's"
  timer_elapsed :: "nat \<Rightarrow> 't"

definition emit :: "('x, 's, 't) event \<Rightarrow> ('x, 's, 't) world \<Rightarrow> ('x, 's, 't) world" where
  "emit e w = w\<lparr>trace := trace w @ [e]\<rparr>"

text \<open>
  Modelled from the spec: \<^verbatim>\<open>misc_utils.get_dataloader\<close> is not part of the source file.
  The spec says the loader is rebuilt per invocation, with no carried-over iteration
  state: every call builds a new loader object, here the next unused number.
\<close>

definition get_dataloader ::
  "dataset \<Rightarrow> int \<Rightarrow> bool \<Rightarrow> ('x, 's, 't) world \<Rightarrow> nat \<times> ('x, 's, 't) world" where
  "get_dataloader ds bs rnd w =
     (next_loader w,
      w\<lparr>trace := trace w @ [GetDataloader ds bs rnd (next_loader w)],
        next_loader := Suc (next_loader w)\<rparr>)"

section \<open>The script\<close>

text \<open>
  \<^verbatim>\<open>one_experiment\<close> (lines 28-70). The model, the training set, the device and the
  damping and scaling constants are the same at every call and are left out of the
  logged estimator call.
\<close>

definition one_experiment ::
  "('x, 's, 't) env \<Rightarrow> 'x \<Rightarrow> int \<Rightarrow> bool \<Rightarrow> int \<Rightarrow> ('x, 's, 't) world
     \<Rightarrow> 's list \<times> ('x, 's, 't) world" where
  "one_experiment e test_inputs bs rnd ns w =
     (let params_filter = map fst (filter (\<lambda>(n, p). \<not> p) (named_parameters e));
          weight_decay_ignores =
            [''bias'', ''LayerNorm.weight''] @
            map fst (filter (\<lambda>(n, p). \<not> p) (named_parameters e));
          (batch_train_data_loader, w1) = get_dataloader TrainDataset bs rnd w;
          w2 = emit (ComputeSTest batch_train_data_loader test_inputs ns
                       params_filter weight_decay_ignores) w1;
          st = compute_s_test e test_inputs batch_train_data_loader ns
      in (map (cpu e) st, w2))"

text \<open>The f-string of lines 180-182.\<close>

definition file_name :: "string \<Rightarrow> int \<Rightarrow> nat \<Rightarrow> int \<Rightarrow> int \<Rightarrow> int \<Rightarrow> string" where
  "file_name mode num_examples_to_test idx ns bs rep =
     ''stest.'' @ mode @ ''.'' @ str_int num_examples_to_test @ ''.'' @
     str_int (int idx) @ ''.'' @ str_int ns @ ''.'' @
     str_int bs @ ''.'' @ str_int rep @ ''.pth''"

text \<open>
  The body of the innermost loop (lines 149-182): one timed estimator call, one record,
  appended to the list and saved. What is printed is not modelled.
\<close>

definition grid_point ::
  "('x, 's, 't) env \<Rightarrow> string \<Rightarrow> int \<Rightarrow> nat \<Rightarrow> 'x \<Rightarrow> pyval \<Rightarrow> int \<Rightarrow> int \<Rightarrow> int
     \<Rightarrow> ('x, 's, 't) world \<times> ('s, 't) outputs list
     \<Rightarrow> ('x, 's, 't) world \<times> ('s, 't) outputs list" where
  "grid_point e mode num_examples_to_test idx test_inputs prediction_is_correct ns bs rep st =
     (let (w, output_collections) = st;
          (st_res, w1) = one_experiment e test_inputs bs True ns w;
          elapsed = timer_elapsed e (length (trace w1));
          out = \<lparr>test_index = idx, num_samples = ns, batch_size = bs, repetition = rep,
                 s_test = st_res, time_elapsed = elapsed,
                 correct = prediction_is_correct\<rparr>;
          w2 = emit (SaveAndMirror out
                       (file_name mode num_examples_to_test idx ns bs rep)) w1
      in (w2, output_collections @ [out]))"

text \<open>The three nested loops of lines 146-148.\<close>

definition grid_sweep ::
  "('x, 's, 't) env \<Rightarrow> string \<Rightarrow> int \<Rightarrow> int \<Rightarrow> nat \<Rightarrow> 'x \<Rightarrow> pyval
     \<Rightarrow> ('x, 's, 't) world \<times> ('s, 't) outputs list
     \<Rightarrow> ('x, 's, 't) world \<times> ('s, 't) outputs list" where
  "grid_sweep e mode num_examples_to_test num_repetitions idx test_inputs prediction_is_correct =
     fold (\<lambda>ns.
       fold (\<lambda>bs.
         fold (\<lambda>rep.
           grid_point e mode num_examples_to_test idx test_inputs prediction_is_correct ns bs rep)
           (py_range 0 num_repetitions 1))
         [1, 2, 4, 8, 16, 32, 64, 128])
       (py_range 700 (1300 + 1) 100)"

text \<open>
  The loop over the evaluation instances (lines 124-184), with its \<^verbatim>\<open>break\<close> and its
  two \<^verbatim>\<open>continue\<close>. The state is the world, \<^verbatim>\<open>num_examples_tested\<close> and
  \<^verbatim>\<open>output_collections\<close>.
\<close>

fun example_loop ::
  "('x, 's, 't) env \<Rightarrow> string \<Rightarrow> int \<Rightarrow> int \<Rightarrow> (nat \<times> 'x) list
     \<Rightarrow> ('x, 's, 't) world \<times> int \<times> ('s, 't) outputs list
     \<Rightarrow> ('x, 's, 't) world \<times> int \<times> ('s, 't) outputs list" where
  "example_loop e mode num_examples_to_test num_repetitions [] st = st"
| "example_loop e mode num_examples_to_test num_repetitions ((idx, test_inputs) # rest)
     (w, num_examples_tested, output_collections) =
     (let w0 = emit (NextEvalInstance idx) w in
      if num_examples_tested \<ge> num_examples_to_test
      then (w0, num_examples_tested, output_collections)
      else
        let w1 = emit (IsPredictionCorrect idx test_inputs) w0;
            prediction_is_correct = is_prediction_correct e test_inputs
        in if mode = ''only-correct'' \<and> prediction_is_correct = PyBool False
           then example_loop e mode num_examples_to_test num_repetitions rest
                  (w1, num_examples_tested, output_collections)
           else if mode = ''only-incorrect'' \<and> prediction_is_correct = PyBool True
           then example_loop e mode num_examples_to_test num_repetitions rest
                  (w1, num_examples_tested, output_collections)
           else
             let w2 = emit (InputsToCuda idx) w1;
                 (w3, output_collections') =
                   grid_sweep e mode num_examples_to_test num_repetitions idx
                     (to_cuda e test_inputs) prediction_is_correct (w2, output_collections)
             in example_loop e mode num_examples_to_test num_repetitions rest
                  (w3, num_examples_tested + 1, output_collections'))"

text \<open>
  \<^verbatim>\<open>main\<close> (lines 73-186). The result is the raised error or the returned list, together
  with the log of the external calls made.
\<close>

definition main ::
  "('x, 's, 't) env \<Rightarrow> string \<Rightarrow> int \<Rightarrow> int
     \<Rightarrow> (error + ('s, 't) outputs list) \<times> ('x, 's, 't) event list" where
  "main e mode num_examples_to_test num_repetitions =
     (if mode \<notin> set [''only-correct'', ''only-incorrect'']
      then (Inl (ValueError (''Unrecognized mode '' @ mode)), trace init_world)
      else
        let w1 = emit CreateTokenizerAndModel init_world;
            w2 = emit CreateDatasets w1;
            (eval_instance_data_loader, w3) = get_dataloader EvalDataset 1 False w2;
            w4 = emit CreateTrainer w3;
            w5 = emit ModelCuda w4;
            (w6, num_examples_tested, output_collections) =
              example_loop e mode num_examples_to_test num_repetitions
                (enumerate 0 (eval_instances e)) (w5, 0, [])
        in (Inr output_collections, trace w6))"

section \<open>Observations on a run\<close>

text \<open>The returned list and the log of a call of \<^verbatim>\<open>main\<close>.\<close>

definition main_records ::
  "('x, 's, 't) env \<Rightarrow> string \<Rightarrow> int \<Rightarrow> int \<Rightarrow> ('s, 't) outputs list" where
  "main_records e mode num_examples_to_test num_repetitions =
     (case fst (main e mode num_examples_to_test num_repetitions) of
        Inl err \<Rightarrow> [] | Inr output_collections \<Rightarrow> output_collections)"

definition main_trace ::
  "('x, 's, 't) env \<Rightarrow> string \<Rightarrow> int \<Rightarrow> int \<Rightarrow> ('x, 's, 't) event list" where
  "main_trace e mode num_examples_to_test num_repetitions =
     snd (main e mode num_examples_to_test num_repetitions)"

text \<open>The grid point of a record.\<close>

definition grid_key :: "('s, 't) outputs \<Rightarrow> nat \<times> int \<times> int \<times> int" where
  "grid_key r = (test_index r, num_samples r, batch_size r, repetition r)"

text \<open>The saved objects with their file names, in the order of the calls.\<close>

fun saved :: "('x, 's, 't) event \<Rightarrow> (('s, 't) outputs \<times> string) list" where
  "saved (SaveAndMirror r f) = [(r, f)]"
| "saved ev = []"

definition saved_files :: "('x, 's, 't) event list \<Rightarrow> (('s, 't) outputs \<times> string) list" where
  "saved_files tr = concat (map saved tr)"

text \<open>
  The instances whose correctness was evaluated, and the instances that passed the mode
  filter (their tensors were moved to the device, lines 141-143), in order.
\<close>

fun evaluated :: "('x, 's, 't) event \<Rightarrow> (nat \<times> 'x) list" where
  "evaluated (IsPredictionCorrect idx x) = [(idx, x)]"
| "evaluated ev = []"

definition evaluated_examples :: "('x, 's, 't) event list \<Rightarrow> (nat \<times> 'x) list" where
  "evaluated_examples tr = concat (map evaluated tr)"

fun retained :: "('x, 's, 't) event \<Rightarrow> nat list" where
  "retained (InputsToCuda idx) = [idx]"
| "retained ev = []"

definition retained_examples :: "('x, 's, 't) event list \<Rightarrow> nat list" where
  "retained_examples tr = concat (map retained tr)"

text \<open>The instances fetched from the evaluation loader, in order.\<close>

fun fetched :: "('x, 's, 't) event \<Rightarrow> nat list" where
  "fetched (NextEvalInstance idx) = [idx]"
| "fetched ev = []"

definition fetched_examples :: "('x, 's, 't) event list \<Rightarrow> nat list" where
  "fetched_examples tr = concat (map fetched tr)"

text \<open>The loaders built, and the loaders handed to the estimator.\<close>

fun built :: "('x, 's, 't) event \<Rightarrow> nat list" where
  "built (GetDataloader ds bs rnd l) = [l]"
| "built ev = []"

definition built_loaders :: "('x, 's, 't) event list \<Rightarrow> nat list" where
  "built_loaders tr = concat (map built tr)"

fun estimated :: "('x, 's, 't) event \<Rightarrow> nat list" where
  "estimated (ComputeSTest l x ns pf wd) = [l]"
| "estimated ev = []"

definition estimator_loaders :: "('x, 's, 't) event list \<Rightarrow> nat list" where
  "estimator_loaders tr = concat (map estimated tr)"

text \<open>
  An estimator call is in order when the event just before it is the construction, over
  the training set and in random order, of the loader it is given.
\<close>

definition estimator_call_ok ::
  "('x, 's, 't) event option \<Rightarrow> ('x, 's, 't) event \<Rightarrow> bool" where
  "estimator_call_ok prev ev =
     (case ev of
        ComputeSTest l' x ns pf wd \<Rightarrow>
          (case prev of
             Some (GetDataloader ds bs rnd l) \<Rightarrow> ds = TrainDataset \<and> rnd \<and> l = l'
           | _ \<Rightarrow> False)
      | _ \<Rightarrow> True)"

fun estimator_calls_ok :: "('x, 's, 't) event option \<Rightarrow> ('x, 's, 't) event list \<Rightarrow> bool" where
  "estimator_calls_ok prev [] = True"
| "estimator_calls_ok prev (ev # tr) =
     (estimator_call_ok prev ev \<and> estimator_calls_ok (Some ev) tr)"

text \<open>The file name that belongs to a record.\<close>

definition record_file_name :: "string \<Rightarrow> int \<Rightarrow> ('s, 't) outputs \<Rightarrow> string" where
  "record_file_name mode num_examples_to_test r =
     file_name mode num_examples_to_test
       (test_index r) (num_samples r) (batch_size r) (repetition r)"

section \<open>The grid and the filter, as the specification words them\<close>

definition sample_counts :: "int list" where
  "sample_counts = [700, 800, 900, 1000, 1100, 1200, 1300]"

definition batch_sizes :: "int list" where
  "batch_sizes = [1, 2, 4, 8, 16, 32, 64, 128]"

text \<open>
  Sample count outermost, batch size in the middle, repetition innermost, each ascending;
  the repetitions are \<open>0, \<dots>, num_repetitions - 1\<close>.
\<close>

definition grid_points :: "int \<Rightarrow> (int \<times> int \<times> int) list" where
  "grid_points num_repetitions =
     concat (map (\<lambda>ns. concat (map (\<lambda>bs. map (\<lambda>rep. (ns, bs, rep)) [0..num_repetitions - 1])
       batch_sizes)) sample_counts)"

definition example_grid :: "int \<Rightarrow> nat \<Rightarrow> (nat \<times> int \<times> int \<times> int) list" where
  "example_grid num_repetitions idx = map (Pair idx) (grid_points num_repetitions)"

text \<open>The lexicographic order on grid points.\<close>

fun grid_less :: "int \<times> int \<times> int \<Rightarrow> int \<times> int \<times> int \<Rightarrow> bool" where
  "grid_less (ns, bs, rep) (ns', bs', rep') =
     (ns < ns' \<or> ns = ns' \<and> (bs < bs' \<or> bs = bs' \<and> rep < rep'))"

text \<open>
  The filter skips an instance when the correctness evaluation is the object \<^verbatim>\<open>False\<close>
  in mode \<^verbatim>\<open>only-correct\<close>, or the object \<^verbatim>\<open>True\<close> in mode \<^verbatim>\<open>only-incorrect\<close>.
\<close>

definition skipped_by_filter :: "string \<Rightarrow> pyval \<Rightarrow> bool" where
  "skipped_by_filter mode c =
     (mode = ''only-correct'' \<and> c = PyBool False \<or>
      mode = ''only-incorrect'' \<and> c = PyBool True)"

definition passes_filter :: "('x, 's, 't) env \<Rightarrow> string \<Rightarrow> nat \<times> 'x \<Rightarrow> bool" where
  "passes_filter e mode p = (\<not> skipped_by_filter mode (is_prediction_correct e (snd p)))"

text \<open>
  The instances looked at under a quota of \<open>k\<close> instances that satisfy \<open>P\<close>: the
  sequence up to and including the \<open>k\<close>-th instance that satisfies \<open>P\<close>.
\<close>

fun quota_prefix :: "nat \<Rightarrow> ('a \<Rightarrow> bool) \<Rightarrow> 'a list \<Rightarrow> 'a list" where
  "quota_prefix 0 P xs = []"
| "quota_prefix (Suc k) P [] = []"
| "quota_prefix (Suc k) P (x # xs) = x # quota_prefix (if P x then k else Suc k) P xs"

text \<open>The calls of lines 82-121, made before the loop starts, and the world they leave.\<close>

definition setup_events :: "('x, 's, 't) event list" where
  "setup_events =
     [CreateTokenizerAndModel, CreateDatasets, GetDataloader EvalDataset 1 False 0,
      CreateTrainer, ModelCuda]"

definition setup_world :: "('x, 's, 't) world" where
  "setup_world = \<lparr>trace = setup_events, next_loader = 1\<rparr>"

section \<open>Invariants of the loops\<close>

text \<open>Every record is saved once, under its own file name, in the order of the list.\<close>

definition saved_inv ::
  "string \<Rightarrow> int \<Rightarrow> ('x, 's, 't) world \<times> ('s, 't) outputs list \<Rightarrow> bool" where
  "saved_inv mode n st =
     (saved_files (trace (fst st)) = map (\<lambda>r. (r, record_file_name mode n r)) (snd st))"

text \<open>
  Every estimator call follows the construction of its loader, no loader is built or
  used twice, and there is one estimator call per record.
\<close>

definition loader_inv :: "('x, 's, 't) world \<times> ('s, 't) outputs list \<Rightarrow> bool" where
  "loader_inv st =
     (estimator_calls_ok None (trace (fst st)) \<and>
      list_all (\<lambda>l. l < next_loader (fst st)) (built_loaders (trace (fst st))) \<and>
      distinct (built_loaders (trace (fst st))) \<and>
      set (estimator_loaders (trace (fst st))) \<subseteq> set (built_loaders (trace (fst st))) \<and>
      distinct (estimator_loaders (trace (fst st))) \<and>
      length (estimator_loaders (trace (fst st))) = length (snd st))"



section \<open>A small evaluation set\<close>

text \<open>
  Four instances, named by numbers. The correctness evaluation is \<^verbatim>\<open>True\<close> on the first,
  \<^verbatim>\<open>False\<close> on the second, \<^verbatim>\<open>None\<close> on the third and \<^verbatim>\<open>True\<close> on the fourth.
\<close>

definition demo_correct :: "nat \<Rightarrow> pyval" where
  "demo_correct x = (if x = 11 then PyBool False else if x = 12 then PyNone else PyBool True)"

definition demo_env :: "(nat, nat, nat) env" where
  "demo_env =
     \<lparr>eval_instances = [10, 11, 12, 13],
      named_parameters = [(''embeddings.weight'', False), (''classifier.weight'', True)],
      is_prediction_correct = demo_correct,
      to_cuda = (\<lambda>x. x),
      compute_s_test = (\<lambda>x l ns. [l]),
      cpu = (\<lambda>s. s),
      timer_elapsed = (\<lambda>k. k)\<rparr>"



section \<open>Decimal rendering and file names\<close>

lemma digit_char_in: "d < 10 \<Longrightarrow> digit_char d \<in> set ''0123456789''"
  unfolding digit_char_def by (rule nth_mem) simp

lemma digit_char_inj: "a < 10 \<Longrightarrow> b < 10 \<Longrightarrow> digit_char a = digit_char b \<Longrightarrow> a = b"
proof -
  assume a: "a < 10" and b: "b < 10" and eq: "digit_char a = digit_char b"
  have d: "distinct ''0123456789''" by simp
  from a b have "a < length ''0123456789''" "b < length ''0123456789''" by simp_all
  with d eq show "a = b" unfolding digit_char_def by (simp only: nth_eq_iff_index_eq)
qed

lemma str_nat_not_Nil: "str_nat k \<noteq> []"
  by (subst str_nat.simps) simp

lemma str_nat_digits: "c \<in> set (str_nat k) \<Longrightarrow> c \<in> set ''0123456789''"
proof (induction k rule: str_nat.induct)
  case (1 k)
  show ?case
  proof (cases "k < 10")
    case True
    with "1.prems" have "c = digit_char k" by (subst (asm) str_nat.simps) simp
    with True show ?thesis using digit_char_in by blast
  next
    case False
    with "1.prems" have "c \<in> set (str_nat (k div 10)) \<or> c = digit_char (k mod 10)"
      by (subst (asm) str_nat.simps) auto
    then show ?thesis
    proof
      assume "c \<in> set (str_nat (k div 10))"
      with False show ?thesis using "1.IH" by blast
    next
      assume "c = digit_char (k mod 10)"
      moreover have "k mod 10 < 10" by simp
      ultimately show ?thesis using digit_char_in by blast
    qed
  qed
qed

lemma str_nat_inj: "str_nat a = str_nat b \<Longrightarrow> a = b"
proof (induction a arbitrary: b rule: str_nat.induct)
  case (1 a)
  note nn = str_nat_not_Nil str_nat_not_Nil [THEN not_sym]
  show ?case
  proof (cases "a < 10")
    case a: True
    show ?thesis
    proof (cases "b < 10")
      case True
      with a "1.prems" show ?thesis
        by (simp add: str_nat.simps [of a] str_nat.simps [of b] digit_char_inj)
    next
      case False
      with a "1.prems" show ?thesis
        by (simp add: str_nat.simps [of a] str_nat.simps [of b] nn)
    qed
  next
    case a: False
    show ?thesis
    proof (cases "b < 10")
      case True
      with a "1.prems" show ?thesis
        by (simp add: str_nat.simps [of a] str_nat.simps [of b] nn)
    next
      case False
      with a "1.prems" have eq: "str_nat (a div 10) = str_nat (b div 10)"
        and d: "digit_char (a mod 10) = digit_char (b mod 10)"
        by (simp_all add: str_nat.simps [of a] str_nat.simps [of b])
      from eq a have "a div 10 = b div 10" by (rule "1.IH" [rotated])
      moreover from d have "a mod 10 = b mod 10" by (simp add: digit_char_inj)
      ultimately show ?thesis by (metis div_mult_mod_eq)
    qed
  qed
qed

lemma hd_str_nat: "hd (str_nat k) \<noteq> CHR ''-''"
proof -
  have "hd (str_nat k) \<in> set (str_nat k)" by (simp add: str_nat_not_Nil)
  then have "hd (str_nat k) \<in> set ''0123456789''" by (rule str_nat_digits)
  then show ?thesis by auto
qed

lemma str_int_inj: "str_int i = str_int j \<Longrightarrow> i = j"
proof -
  assume eq: "str_int i = str_int j"
  show ?thesis
  proof (cases "i < 0")
    case i: True
    show ?thesis
    proof (cases "j < 0")
      case True
      with i eq have "str_nat (nat (- i)) = str_nat (nat (- j))" by (simp add: str_int_def)
      then have "nat (- i) = nat (- j)" by (rule str_nat_inj)
      with i True show ?thesis by simp
    next
      case False
      with i eq have "CHR ''-'' # str_nat (nat (- i)) = str_nat (nat j)"
        by (simp add: str_int_def)
      then have "hd (str_nat (nat j)) = CHR ''-''" by (metis list.sel(1))
      with hd_str_nat show ?thesis by blast
    qed
  next
    case i: False
    show ?thesis
    proof (cases "j < 0")
      case True
      with i eq have "str_nat (nat i) = CHR ''-'' # str_nat (nat (- j))"
        by (simp add: str_int_def)
      then have "hd (str_nat (nat i)) = CHR ''-''" by (metis list.sel(1))
      with hd_str_nat show ?thesis by blast
    next
      case False
      with i eq have "str_nat (nat i) = str_nat (nat j)" by (simp add: str_int_def)
      then have "nat i = nat j" by (rule str_nat_inj)
      with i False show ?thesis by simp
    qed
  qed
qed

lemma str_nat_no_dot: "CHR ''.'' \<notin> set (str_nat k)"
proof
  assume "CHR ''.'' \<in> set (str_nat k)"
  then have "CHR ''.'' \<in> set ''0123456789''" by (rule str_nat_digits)
  then show False by simp
qed

lemma str_int_no_dot: "CHR ''.'' \<notin> set (str_int i)"
  by (simp add: str_int_def str_nat_no_dot)

lemma dot_split:
  "CHR ''.'' \<notin> set a \<Longrightarrow> CHR ''.'' \<notin> set a' \<Longrightarrow>
   a @ CHR ''.'' # r = a' @ CHR ''.'' # r' \<Longrightarrow> a = a' \<and> r = r'"
proof (induction a arbitrary: a')
  case Nil
  then show ?case by (cases a') auto
next
  case (Cons c a)
  then show ?case by (cases a') auto
qed

lemma file_name_inj:
  assumes "file_name mode n idx ns bs rep = file_name mode n idx' ns' bs' rep'"
  shows "idx = idx' \<and> ns = ns' \<and> bs = bs' \<and> rep = rep'"
proof -
  from assms have 1:
    "str_int (int idx) @ CHR ''.'' # (str_int ns @ CHR ''.'' # (str_int bs @ CHR ''.'' # (str_int rep @ CHR ''.'' # ''pth''))) =
     str_int (int idx') @ CHR ''.'' # (str_int ns' @ CHR ''.'' # (str_int bs' @ CHR ''.'' # (str_int rep' @ CHR ''.'' # ''pth'')))"
    by (simp add: file_name_def)
  from dot_split [OF str_int_no_dot str_int_no_dot 1]
  have a: "str_int (int idx) = str_int (int idx')"
    and 2: "str_int ns @ CHR ''.'' # (str_int bs @ CHR ''.'' # (str_int rep @ CHR ''.'' # ''pth'')) =
     str_int ns' @ CHR ''.'' # (str_int bs' @ CHR ''.'' # (str_int rep' @ CHR ''.'' # ''pth''))"
    by simp_all
  from dot_split [OF str_int_no_dot str_int_no_dot 2]
  have b: "str_int ns = str_int ns'"
    and 3: "str_int bs @ CHR ''.'' # (str_int rep @ CHR ''.'' # ''pth'') =
     str_int bs' @ CHR ''.'' # (str_int rep' @ CHR ''.'' # ''pth'')"
    by simp_all
  from dot_split [OF str_int_no_dot str_int_no_dot 3]
  have c: "str_int bs = str_int bs'" and d: "str_int rep = str_int rep'"
    by simp_all
  from a have "int idx = int idx'" by (rule str_int_inj)
  moreover from b have "ns = ns'" by (rule str_int_inj)
  moreover from c have "bs = bs'" by (rule str_int_inj)
  moreover from d have "rep = rep'" by (rule str_int_inj)
  ultimately show ?thesis by simp
qed

section \<open>One grid point\<close>

lemma fold_append_proj:
  assumes "\<And>x st. P (g x st) = P st @ f x"
  shows "P (fold g xs st) = P st @ concat (map f xs)"
  by (induction xs arbitrary: st) (simp_all add: assms)

lemma fold_same_proj:
  assumes "\<And>x st. P (g x st) = P st"
  shows "P (fold g xs st) = P st"
  by (induction xs arbitrary: st) (simp_all add: assms)

lemma fold_invariant:
  assumes "I st" and "\<And>x st. I st \<Longrightarrow> I (g x st)"
  shows "I (fold g xs st)"
  using assms(1) by (induction xs arbitrary: st) (simp_all add: assms(2))

lemma saved_files_append [simp]: "saved_files (a @ b) = saved_files a @ saved_files b"
  by (simp add: saved_files_def)

lemma evaluated_examples_append [simp]:
  "evaluated_examples (a @ b) = evaluated_examples a @ evaluated_examples b"
  by (simp add: evaluated_examples_def)

lemma retained_examples_append [simp]:
  "retained_examples (a @ b) = retained_examples a @ retained_examples b"
  by (simp add: retained_examples_def)

lemma built_loaders_append [simp]: "built_loaders (a @ b) = built_loaders a @ built_loaders b"
  by (simp add: built_loaders_def)

lemma estimator_loaders_append [simp]:
  "estimator_loaders (a @ b) = estimator_loaders a @ estimator_loaders b"
  by (simp add: estimator_loaders_def)

lemma trace_grid_point:
  "trace (fst (grid_point e mode n idx inp c ns bs rep st)) =
     trace (fst st) @
     [GetDataloader TrainDataset bs True (next_loader (fst st)),
      ComputeSTest (next_loader (fst st)) inp ns
        (map fst (filter (\<lambda>(n, p). \<not> p) (named_parameters e)))
        ([''bias'', ''LayerNorm.weight''] @ map fst (filter (\<lambda>(n, p). \<not> p) (named_parameters e))),
      SaveAndMirror (last (snd (grid_point e mode n idx inp c ns bs rep st)))
        (file_name mode n idx ns bs rep)]"
  by (simp add: grid_point_def one_experiment_def get_dataloader_def emit_def Let_def split_beta)

lemma next_loader_grid_point:
  "next_loader (fst (grid_point e mode n idx inp c ns bs rep st)) = Suc (next_loader (fst st))"
  by (simp add: grid_point_def one_experiment_def get_dataloader_def emit_def Let_def split_beta)

lemma snd_grid_point:
  "\<exists>r. snd (grid_point e mode n idx inp c ns bs rep st) = snd st @ [r] \<and>
       grid_key r = (idx, ns, bs, rep) \<and> correct r = c"
  by (simp add: grid_point_def one_experiment_def get_dataloader_def emit_def Let_def split_beta
      grid_key_def)

lemma keys_grid_point:
  "map grid_key (snd (grid_point e mode n idx inp c ns bs rep st)) =
     map grid_key (snd st) @ [(idx, ns, bs, rep)]"
  using snd_grid_point [of e mode n idx inp c ns bs rep st] by auto

lemma saved_grid_point:
  "saved_files (trace (fst (grid_point e mode n idx inp c ns bs rep st))) =
     saved_files (trace (fst st)) @
     [(last (snd (grid_point e mode n idx inp c ns bs rep st)), file_name mode n idx ns bs rep)]"
  by (simp add: trace_grid_point) (simp add: saved_files_def)

lemma retained_grid_point:
  "retained_examples (trace (fst (grid_point e mode n idx inp c ns bs rep st))) =
     retained_examples (trace (fst st))"
  by (simp add: trace_grid_point) (simp add: retained_examples_def)

lemma evaluated_grid_point:
  "evaluated_examples (trace (fst (grid_point e mode n idx inp c ns bs rep st))) =
     evaluated_examples (trace (fst st))"
  by (simp add: trace_grid_point) (simp add: evaluated_examples_def)

section \<open>The ranges\<close>

lemma py_range_sample_counts:
  "py_range 700 (1300 + 1) 100 = sample_counts"
  by (simp add: py_range.simps sample_counts_def)

lemma py_range_step1: "py_range a b 1 = [a..b - 1]"
proof (induction a b "1::int" rule: py_range.induct)
  case (1 start stop)
  show ?case
  proof (cases "start < stop")
    case True
    then have "py_range start stop 1 = start # py_range (start + 1) stop 1"
      by (simp add: py_range.simps)
    also have "\<dots> = start # [start + 1..stop - 1]"
      using 1 True by simp
    also have "\<dots> = [start..stop - 1]"
      using True by (simp add: upto_rec1)
    finally show ?thesis .
  next
    case False
    then show ?thesis by (simp add: py_range.simps)
  qed
qed

section \<open>The grid sweep\<close>

lemma grid_sweep_alt:
  "grid_sweep e mode n reps idx inp c =
     fold (\<lambda>ns. fold (\<lambda>bs. fold (\<lambda>rep. grid_point e mode n idx inp c ns bs rep)
       [0..reps - 1]) batch_sizes) sample_counts"
  unfolding grid_sweep_def py_range_sample_counts py_range_step1 batch_sizes_def
  by (rule refl)

lemma concat_singletons: "concat (map (\<lambda>x. [h x]) xs) = map h xs"
  by (induction xs) simp_all

lemma grid_sweep_proj:
  assumes "\<And>ns bs rep st. P (grid_point e mode n idx inp c ns bs rep st) = P st @ [f ns bs rep]"
  shows "P (grid_sweep e mode n reps idx inp c st) =
           P st @ map (\<lambda>(ns, bs, rep). f ns bs rep) (grid_points reps)"
proof -
  let ?gp = "grid_point e mode n idx inp c"
  let ?R = "[0..reps - 1]"
  have inner: "P (fold (\<lambda>rep. ?gp ns bs rep) ?R st) = P st @ concat (map (\<lambda>rep. [f ns bs rep]) ?R)"
    for ns bs st
    by (rule fold_append_proj [where P = P and g = "\<lambda>rep. ?gp ns bs rep"]) (rule assms)
  have mid: "P (fold (\<lambda>bs. fold (\<lambda>rep. ?gp ns bs rep) ?R) batch_sizes st) =
      P st @ concat (map (\<lambda>bs. concat (map (\<lambda>rep. [f ns bs rep]) ?R)) batch_sizes)" for ns st
    by (rule fold_append_proj [where P = P and g = "\<lambda>bs. fold (\<lambda>rep. ?gp ns bs rep) ?R"])
      (rule inner)
  have outer: "P (fold (\<lambda>ns. fold (\<lambda>bs. fold (\<lambda>rep. ?gp ns bs rep) ?R) batch_sizes) sample_counts st) =
      P st @ concat (map (\<lambda>ns. concat (map (\<lambda>bs. concat (map (\<lambda>rep. [f ns bs rep]) ?R)) batch_sizes))
        sample_counts)"
    by (rule fold_append_proj
        [where P = P and g = "\<lambda>ns. fold (\<lambda>bs. fold (\<lambda>rep. ?gp ns bs rep) ?R) batch_sizes"])
      (rule mid)
  have "map (\<lambda>(ns, bs, rep). f ns bs rep) (grid_points reps) =
      concat (map (\<lambda>ns. concat (map (\<lambda>bs. concat (map (\<lambda>rep. [f ns bs rep]) ?R)) batch_sizes))
        sample_counts)"
    by (simp only: concat_singletons grid_points_def map_concat map_map comp_def prod.case)
  with outer show ?thesis by (simp only: grid_sweep_alt)
qed

lemma grid_sweep_same:
  assumes "\<And>ns bs rep st. P (grid_point e mode n idx inp c ns bs rep st) = P st"
  shows "P (grid_sweep e mode n reps idx inp c st) = P st"
proof -
  let ?gp = "grid_point e mode n idx inp c"
  have inner: "P (fold (\<lambda>rep. ?gp ns bs rep) [0..reps - 1] st) = P st" for ns bs st
    by (rule fold_same_proj [where P = P and g = "\<lambda>rep. ?gp ns bs rep"]) (rule assms)
  have mid: "P (fold (\<lambda>bs. fold (\<lambda>rep. ?gp ns bs rep) [0..reps - 1]) batch_sizes st) = P st"
    for ns st
    by (rule fold_same_proj
        [where P = P and g = "\<lambda>bs. fold (\<lambda>rep. ?gp ns bs rep) [0..reps - 1]"])
      (rule inner)
  show ?thesis
    unfolding grid_sweep_alt
    by (rule fold_same_proj
        [where P = P and
          g = "\<lambda>ns. fold (\<lambda>bs. fold (\<lambda>rep. ?gp ns bs rep) [0..reps - 1]) batch_sizes"])
      (rule mid)
qed

lemma grid_sweep_invariant:
  assumes "I st" and "\<And>ns bs rep st. I st \<Longrightarrow> I (grid_point e mode n idx inp c ns bs rep st)"
  shows "I (grid_sweep e mode n reps idx inp c st)"
proof -
  let ?gp = "grid_point e mode n idx inp c"
  have inner: "I st \<Longrightarrow> I (fold (\<lambda>rep. ?gp ns bs rep) [0..reps - 1] st)" for ns bs st
    by (rule fold_invariant [where I = I and g = "\<lambda>rep. ?gp ns bs rep"]) (auto intro: assms(2))
  have mid: "I st \<Longrightarrow> I (fold (\<lambda>bs. fold (\<lambda>rep. ?gp ns bs rep) [0..reps - 1]) batch_sizes st)"
    for ns st
    by (rule fold_invariant
        [where I = I and g = "\<lambda>bs. fold (\<lambda>rep. ?gp ns bs rep) [0..reps - 1]"])
      (auto intro: inner)
  show ?thesis
    unfolding grid_sweep_alt
    by (rule fold_invariant
        [where I = I and
          g = "\<lambda>ns. fold (\<lambda>bs. fold (\<lambda>rep. ?gp ns bs rep) [0..reps - 1]) batch_sizes"])
      (auto intro: mid assms(1))
qed

lemma keys_grid_sweep:
  "map grid_key (snd (grid_sweep e mode n reps idx inp c st)) =
     map grid_key (snd st) @ example_grid reps idx"
proof -
  have "map grid_key (snd (grid_sweep e mode n reps idx inp c st)) =
     map grid_key (snd st) @ map (\<lambda>(ns, bs, rep). (idx, ns, bs, rep)) (grid_points reps)"
    by (rule grid_sweep_proj [where P = "\<lambda>st. map grid_key (snd st)"]) (rule keys_grid_point)
  moreover have "(\<lambda>(ns, bs, rep). (idx, ns, bs, rep)) = Pair idx" by auto
  ultimately show ?thesis by (simp add: example_grid_def)
qed

lemma retained_grid_sweep:
  "retained_examples (trace (fst (grid_sweep e mode n reps idx inp c st))) =
     retained_examples (trace (fst st))"
  by (rule grid_sweep_same [where P = "\<lambda>st. retained_examples (trace (fst st))"])
    (rule retained_grid_point)

lemma evaluated_grid_sweep:
  "evaluated_examples (trace (fst (grid_sweep e mode n reps idx inp c st))) =
     evaluated_examples (trace (fst st))"
  by (rule grid_sweep_same [where P = "\<lambda>st. evaluated_examples (trace (fst st))"])
    (rule evaluated_grid_point)

section \<open>The loop over the evaluation instances\<close>

lemma estimator_calls_ok_snoc:
  "estimator_calls_ok prev (tr @ [ev]) =
     (estimator_calls_ok prev tr \<and>
      estimator_call_ok (if tr = [] then prev else Some (last tr)) ev)"
  by (induction tr arbitrary: prev) auto

lemma trace_emit [simp]: "trace (emit ev w) = trace w @ [ev]"
  by (simp add: emit_def)

lemma next_loader_emit [simp]: "next_loader (emit ev w) = next_loader w"
  by (simp add: emit_def)

lemma example_loop_break:
  "n \<le> tested \<Longrightarrow>
   example_loop e mode n reps ((idx, inp) # rest) (w, tested, out) =
     (emit (NextEvalInstance idx) w, tested, out)"
  by (simp add: Let_def)

lemma example_loop_skip:
  "tested < n \<Longrightarrow> skipped_by_filter mode (is_prediction_correct e inp) \<Longrightarrow>
   example_loop e mode n reps ((idx, inp) # rest) (w, tested, out) =
     example_loop e mode n reps rest
       (emit (IsPredictionCorrect idx inp) (emit (NextEvalInstance idx) w), tested, out)"
  by (auto simp add: Let_def skipped_by_filter_def)

lemma example_loop_sweep:
  "tested < n \<Longrightarrow> \<not> skipped_by_filter mode (is_prediction_correct e inp) \<Longrightarrow>
   example_loop e mode n reps ((idx, inp) # rest) (w, tested, out) =
     (let st = grid_sweep e mode n reps idx (to_cuda e inp) (is_prediction_correct e inp)
                 (emit (InputsToCuda idx)
                    (emit (IsPredictionCorrect idx inp) (emit (NextEvalInstance idx) w)), out)
      in example_loop e mode n reps rest (fst st, tested + 1, snd st))"
  by (auto simp add: Let_def skipped_by_filter_def split_beta)

declare example_loop.simps(2) [simp del]

lemma example_loop_cases:
  fixes n tested :: int
  obtains (break) "n \<le> tested"
  | (skip) "tested < n" "skipped_by_filter mode (is_prediction_correct e inp)"
  | (sweep) "tested < n" "\<not> skipped_by_filter mode (is_prediction_correct e inp)"
  by fastforce

lemma keys_example_loop:
  "map grid_key (snd (snd (example_loop e mode n reps exs (w, tested, out)))) =
     map grid_key out @
     concat (map (example_grid reps)
       (map fst (take (nat (n - tested)) (filter (passes_filter e mode) exs))))"
proof (induction exs arbitrary: w tested out)
  case Nil
  show ?case by simp
next
  case (Cons p rest)
  obtain idx inp where p: "p = (idx, inp)" by (cases p)
  show ?case
  proof (cases rule: example_loop_cases [where n = n and tested = tested and mode = mode and e = e and inp = inp])
    case break
    then show ?thesis by (simp add: p example_loop_break)
  next
    case skip
    then show ?thesis by (simp add: p example_loop_skip Cons.IH passes_filter_def)
  next
    case sweep
    then have "nat (n - tested) = Suc (nat (n - (tested + 1)))" by simp
    with sweep show ?thesis
      by (simp add: p example_loop_sweep Cons.IH passes_filter_def Let_def keys_grid_sweep)
  qed
qed

lemma retained_example_loop:
  "retained_examples (trace (fst (example_loop e mode n reps exs (w, tested, out)))) =
     retained_examples (trace w) @
     map fst (take (nat (n - tested)) (filter (passes_filter e mode) exs))"
proof (induction exs arbitrary: w tested out)
  case Nil
  show ?case by simp
next
  case (Cons p rest)
  obtain idx inp where p: "p = (idx, inp)" by (cases p)
  show ?case
  proof (cases rule: example_loop_cases [where n = n and tested = tested and mode = mode and e = e and inp = inp])
    case break
    then show ?thesis by (simp add: p example_loop_break) (simp add: retained_examples_def)
  next
    case skip
    then show ?thesis
      by (simp add: p example_loop_skip Cons.IH passes_filter_def)
        (simp add: retained_examples_def)
  next
    case sweep
    then have "nat (n - tested) = Suc (nat (n - (tested + 1)))" by simp
    with sweep show ?thesis
      by (simp add: p example_loop_sweep Cons.IH passes_filter_def Let_def retained_grid_sweep)
        (simp add: retained_examples_def)
  qed
qed

lemma evaluated_example_loop:
  "evaluated_examples (trace (fst (example_loop e mode n reps exs (w, tested, out)))) =
     evaluated_examples (trace w) @
     quota_prefix (nat (n - tested)) (passes_filter e mode) exs"
proof (induction exs arbitrary: w tested out)
  case Nil
  show ?case by (cases "nat (n - tested)") simp_all
next
  case (Cons p rest)
  obtain idx inp where p: "p = (idx, inp)" by (cases p)
  show ?case
  proof (cases rule: example_loop_cases [where n = n and tested = tested and mode = mode and e = e and inp = inp])
    case break
    then show ?thesis by (simp add: p example_loop_break) (simp add: evaluated_examples_def)
  next
    case skip
    then obtain k where "nat (n - tested) = Suc k" by (cases "nat (n - tested)") auto
    with skip show ?thesis
      by (simp add: p example_loop_skip Cons.IH passes_filter_def)
        (simp add: evaluated_examples_def)
  next
    case sweep
    then have "nat (n - tested) = Suc (nat (n - (tested + 1)))" by simp
    with sweep show ?thesis
      by (simp add: p example_loop_sweep Cons.IH passes_filter_def Let_def evaluated_grid_sweep)
        (simp add: evaluated_examples_def)
  qed
qed

lemma example_loop_invariant:
  assumes "I (w, out)"
    and "\<And>w out ev. I (w, out) \<Longrightarrow> saved ev = [] \<Longrightarrow> built ev = [] \<Longrightarrow> estimated ev = [] \<Longrightarrow>
           I (emit ev w, out)"
    and "\<And>idx inp st. I st \<Longrightarrow> (idx, inp) \<in> set exs \<Longrightarrow>
           \<not> skipped_by_filter mode (is_prediction_correct e inp) \<Longrightarrow>
           I (grid_sweep e mode n reps idx (to_cuda e inp) (is_prediction_correct e inp) st)"
  shows "I (fst (example_loop e mode n reps exs (w, tested, out)),
            snd (snd (example_loop e mode n reps exs (w, tested, out))))"
  using assms(1, 3)
proof (induction exs arbitrary: w tested out)
  case Nil
  then show ?case by simp
next
  case (Cons p rest)
  obtain idx inp where p: "p = (idx, inp)" by (cases p)
  note step = assms(2)
  show ?case
  proof (cases rule: example_loop_cases [where n = n and tested = tested and mode = mode and e = e and inp = inp])
    case break
    then show ?thesis using Cons.prems(1) by (simp add: p example_loop_break step)
  next
    case skip
    have "I (emit (IsPredictionCorrect idx inp) (emit (NextEvalInstance idx) w), out)"
      using Cons.prems(1) by (simp add: step)
    then show ?thesis
      using skip Cons.prems(2) by (simp add: p example_loop_skip Cons.IH)
  next
    case sweep
    let ?w = "emit (InputsToCuda idx)
                (emit (IsPredictionCorrect idx inp) (emit (NextEvalInstance idx) w))"
    let ?st = "grid_sweep e mode n reps idx (to_cuda e inp) (is_prediction_correct e inp) (?w, out)"
    have "I (?w, out)" using Cons.prems(1) by (simp add: step)
    then have "I ?st" using sweep Cons.prems(2) [of "(?w, out)" idx inp] by (simp add: p)
    then have "I (fst ?st, snd ?st)" by simp
    then show ?thesis
      using sweep Cons.prems(2) by (simp add: p example_loop_sweep Let_def Cons.IH)
  qed
qed

section \<open>The instances fetched\<close>

lemma fetched_examples_append [simp]:
  "fetched_examples (a @ b) = fetched_examples a @ fetched_examples b"
  by (simp add: fetched_examples_def)

lemma fetched_grid_point:
  "fetched_examples (trace (fst (grid_point e mode n idx inp c ns bs rep st))) =
     fetched_examples (trace (fst st))"
  by (simp add: trace_grid_point) (simp add: fetched_examples_def)

lemma fetched_grid_sweep:
  "fetched_examples (trace (fst (grid_sweep e mode n reps idx inp c st))) =
     fetched_examples (trace (fst st))"
  by (rule grid_sweep_same [where P = "\<lambda>st. fetched_examples (trace (fst st))"])
    (rule fetched_grid_point)

lemma fetched_example_loop:
  "fetched_examples (trace (fst (example_loop e mode n reps exs (w, tested, out)))) =
     fetched_examples (trace w) @
     map fst (take (Suc (length (quota_prefix (nat (n - tested)) (passes_filter e mode) exs))) exs)"
proof (induction exs arbitrary: w tested out)
  case Nil
  show ?case by simp
next
  case (Cons p rest)
  obtain idx inp where p: "p = (idx, inp)" by (cases p)
  show ?case
  proof (cases rule: example_loop_cases [where n = n and tested = tested and mode = mode and e = e and inp = inp])
    case break
    then show ?thesis by (simp add: p example_loop_break) (simp add: fetched_examples_def)
  next
    case skip
    then obtain k where "nat (n - tested) = Suc k" by (cases "nat (n - tested)") auto
    with skip show ?thesis
      by (simp add: p example_loop_skip Cons.IH passes_filter_def)
        (simp add: fetched_examples_def)
  next
    case sweep
    then have "nat (n - tested) = Suc (nat (n - (tested + 1)))" by simp
    with sweep show ?thesis
      by (simp add: p example_loop_sweep Cons.IH passes_filter_def Let_def fetched_grid_sweep)
        (simp add: fetched_examples_def)
  qed
qed

section \<open>The entry point\<close>

lemma valid_mode_cases:
  "mode \<notin> set [''only-correct'', ''only-incorrect''] \<longleftrightarrow>
     mode \<noteq> ''only-correct'' \<and> mode \<noteq> ''only-incorrect''"
  by simp

lemma main_invalid_mode:
  "mode \<noteq> ''only-correct'' \<Longrightarrow> mode \<noteq> ''only-incorrect'' \<Longrightarrow>
   main e mode n reps = (Inl (ValueError (''Unrecognized mode '' @ mode)), [])"
  unfolding main_def valid_mode_cases by (simp add: init_world_def)

lemma main_valid_mode:
  "mode = ''only-correct'' \<or> mode = ''only-incorrect'' \<Longrightarrow>
   main e mode n reps =
     (Inr (snd (snd (example_loop e mode n reps (enumerate 0 (eval_instances e))
                      (setup_world, 0, [])))),
      trace (fst (example_loop e mode n reps (enumerate 0 (eval_instances e))
                      (setup_world, 0, []))))"
  unfolding main_def valid_mode_cases
  by (auto simp add: init_world_def setup_world_def setup_events_def emit_def get_dataloader_def
      Let_def split_beta)

text \<open>
  C3: for every mode other than \<^verbatim>\<open>only-correct\<close> and \<^verbatim>\<open>only-incorrect\<close>, \<^verbatim>\<open>main\<close>
  raises \<^verbatim>\<open>ValueError\<close> and the log of external calls is empty: no model, dataset or
  instance has been touched, no record built, nothing saved.
\<close>

theorem invalid_mode_raises_first:
  "mode \<noteq> ''only-correct'' \<Longrightarrow> mode \<noteq> ''only-incorrect'' \<Longrightarrow>
   main e mode num_examples_to_test num_repetitions =
     (Inl (ValueError (''Unrecognized mode '' @ mode)), [])"
  by (rule main_invalid_mode)

theorem invalid_mode_raises_first_witness:
  "main demo_env ''bogus'' 5 4 = (Inl (ValueError ''Unrecognized mode bogus''), [])"
  using invalid_mode_raises_first [of "''bogus''" demo_env 5 4] by simp

text \<open>
  C10: with a valid mode and \<^verbatim>\<open>num_examples_to_test\<close> at most zero, \<^verbatim>\<open>main\<close> returns the
  empty list. The model, the datasets, the evaluation loader and the trainer are built
  first; the loop then fetches the first instance, if there is one, and breaks before
  any correctness evaluation, estimator call or save.
\<close>

theorem nonpositive_quota_breaks_at_once:
  assumes "num_examples_to_test \<le> 0"
    and "mode = ''only-correct'' \<or> mode = ''only-incorrect''"
  shows "main e mode num_examples_to_test num_repetitions =
     (Inr [],
      setup_events @
      (case eval_instances e of [] \<Rightarrow> [] | x # xs \<Rightarrow> [NextEvalInstance 0]))"
proof (cases "eval_instances e")
  case Nil
  with assms(2) show ?thesis by (simp add: main_valid_mode setup_world_def)
next
  case (Cons x xs)
  with assms show ?thesis
    by (simp add: main_valid_mode example_loop_break) (simp add: setup_world_def)
qed

theorem nonpositive_quota_breaks_at_once_witness:
  "main demo_env ''only-incorrect'' 0 4 =
     (Inr [],
      [CreateTokenizerAndModel, CreateDatasets, GetDataloader EvalDataset 1 False 0,
       CreateTrainer, ModelCuda, NextEvalInstance 0])"
  using nonpositive_quota_breaks_at_once [of 0 "''only-incorrect''" demo_env 4]
  by (simp add: demo_env_def setup_events_def)

section \<open>The quota and the grid as lists\<close>

lemma filter_quota_prefix: "filter P (quota_prefix k P xs) = take k (filter P xs)"
  by (induction k P xs rule: quota_prefix.induct) (auto split: if_splits)

lemma quota_prefix_take: "quota_prefix k P xs = take (length (quota_prefix k P xs)) xs"
  by (induction k P xs rule: quota_prefix.induct) simp_all

lemma quota_prefix_halts:
  "j < length (quota_prefix k P xs) \<Longrightarrow> length (filter P (take j xs)) < k"
proof (induction k P xs arbitrary: j rule: quota_prefix.induct)
  case (1 P xs)
  then show ?case by simp
next
  case (2 k P)
  then show ?case by simp
next
  case (3 k P x xs)
  show ?case
  proof (cases j)
    case 0
    then show ?thesis by simp
  next
    case (Suc j')
    with "3.prems" have "j' < length (quota_prefix (if P x then k else Suc k) P xs)" by simp
    then have "length (filter P (take j' xs)) < (if P x then k else Suc k)" by (rule "3.IH")
    with Suc show ?thesis by (simp split: if_splits)
  qed
qed

lemma length_grid_points: "length (grid_points reps) = 7 * 8 * nat reps"
  by (simp add: grid_points_def sample_counts_def batch_sizes_def)

lemma sorted_wrt_concat_map:
  assumes "sorted_wrt Q xs"
    and "\<And>x. x \<in> set xs \<Longrightarrow> sorted_wrt R (f x)"
    and "\<And>x y a b. Q x y \<Longrightarrow> a \<in> set (f x) \<Longrightarrow> b \<in> set (f y) \<Longrightarrow> R a b"
  shows "sorted_wrt R (concat (map f xs))"
  using assms(1, 2)
proof (induction xs)
  case Nil
  then show ?case by simp
next
  case (Cons x xs)
  then show ?case by (auto simp add: sorted_wrt_append intro: assms(3))
qed

lemma sorted_sample_counts: "sorted_wrt (<) sample_counts"
  by (simp add: sample_counts_def)

lemma sorted_batch_sizes: "sorted_wrt (<) batch_sizes"
  by (simp add: batch_sizes_def)

lemma sorted_grid_points: "sorted_wrt grid_less (grid_points reps)"
  unfolding grid_points_def
proof (rule sorted_wrt_concat_map [where Q = "(<)"])
  show "sorted_wrt (<) sample_counts" by (rule sorted_sample_counts)
next
  fix ns :: int
  show "sorted_wrt grid_less
          (concat (map (\<lambda>bs. map (\<lambda>rep. (ns, bs, rep)) [0..reps - 1]) batch_sizes))"
  proof (rule sorted_wrt_concat_map [where Q = "(<)"])
    show "sorted_wrt (<) batch_sizes" by (rule sorted_batch_sizes)
  next
    fix bs :: int
    have "sorted_wrt (\<lambda>r r'. grid_less (ns, bs, r) (ns, bs, r')) [0..reps - 1]"
      using sorted_wrt_upto [of 0 "reps - 1"] by simp
    then show "sorted_wrt grid_less (map (\<lambda>rep. (ns, bs, rep)) [0..reps - 1])"
      by (simp add: sorted_wrt_map)
  next
    fix bs bs' :: int and a b
    assume "bs < bs'" "a \<in> set (map (\<lambda>rep. (ns, bs, rep)) [0..reps - 1])"
      "b \<in> set (map (\<lambda>rep. (ns, bs', rep)) [0..reps - 1])"
    then show "grid_less a b" by auto
  qed
next
  fix ns ns' :: int and a b
  assume "ns < ns'"
    "a \<in> set (concat (map (\<lambda>bs. map (\<lambda>rep. (ns, bs, rep)) [0..reps - 1]) batch_sizes))"
    "b \<in> set (concat (map (\<lambda>bs. map (\<lambda>rep. (ns', bs, rep)) [0..reps - 1]) batch_sizes))"
  then show "grid_less a b" by auto
qed

lemma grid_less_irrefl: "\<not> grid_less a a"
  by (cases a) simp

lemma sorted_wrt_irrefl_imp_distinct:
  "(\<And>a. \<not> R a a) \<Longrightarrow> sorted_wrt R xs \<Longrightarrow> distinct xs"
  by (induction xs) auto

lemma distinct_grid_points: "distinct (grid_points reps)"
  using sorted_grid_points by (rule sorted_wrt_irrefl_imp_distinct [OF grid_less_irrefl])

lemma distinct_example_grid: "distinct (example_grid reps idx)"
  by (simp add: example_grid_def distinct_map distinct_grid_points inj_on_def)

lemma fst_example_grid: "k \<in> set (example_grid reps idx) \<Longrightarrow> fst k = idx"
  by (auto simp add: example_grid_def)

lemma filter_example_grid:
  "filter (\<lambda>k. fst k = idx) (example_grid reps j) = (if j = idx then example_grid reps idx else [])"
  by (auto simp add: example_grid_def filter_map comp_def)

lemma filter_concat_example_grid:
  "distinct js \<Longrightarrow>
   filter (\<lambda>k. fst k = idx) (concat (map (example_grid reps) js)) =
     (if idx \<in> set js then example_grid reps idx else [])"
  by (induction js) (auto simp add: filter_example_grid)

lemma distinct_concat_example_grid:
  "distinct js \<Longrightarrow> distinct (concat (map (example_grid reps) js))"
  by (induction js) (auto simp add: distinct_example_grid dest: fst_example_grid)

lemma fst_concat_example_grid:
  "k \<in> set (concat (map (example_grid reps) js)) \<Longrightarrow> fst k \<in> set js"
  by (auto dest: fst_example_grid)

lemma example_grid_not_Nil: "0 < reps \<Longrightarrow> example_grid reps idx \<noteq> []"
  by (simp add: example_grid_def grid_points_def sample_counts_def batch_sizes_def)

lemma fst_set_concat_example_grid:
  "0 < reps \<Longrightarrow> fst ` set (concat (map (example_grid reps) js)) = set js"
proof (induction js)
  case Nil
  then show ?case by simp
next
  case (Cons j js)
  from Cons.prems have "example_grid reps j \<noteq> []" by (rule example_grid_not_Nil)
  then obtain k where k: "k \<in> set (example_grid reps j)" by (cases "example_grid reps j") auto
  have "fst ` set (example_grid reps j) = {j}"
  proof
    show "fst ` set (example_grid reps j) \<subseteq> {j}" by (auto dest: fst_example_grid)
    from k have "fst k \<in> fst ` set (example_grid reps j)" by (rule imageI)
    with k show "{j} \<subseteq> fst ` set (example_grid reps j)" by (simp add: fst_example_grid)
  qed
  with Cons show ?case by (simp add: image_Un)
qed

section \<open>What a run returns and logs\<close>

lemma main_records_invalid:
  "mode \<noteq> ''only-correct'' \<Longrightarrow> mode \<noteq> ''only-incorrect'' \<Longrightarrow> main_records e mode n reps = []"
  by (simp add: main_records_def main_invalid_mode)

lemma main_trace_invalid:
  "mode \<noteq> ''only-correct'' \<Longrightarrow> mode \<noteq> ''only-incorrect'' \<Longrightarrow> main_trace e mode n reps = []"
  by (simp add: main_trace_def main_invalid_mode)

lemma main_records_valid:
  "mode = ''only-correct'' \<or> mode = ''only-incorrect'' \<Longrightarrow>
   main_records e mode n reps =
     snd (snd (example_loop e mode n reps (enumerate 0 (eval_instances e)) (setup_world, 0, [])))"
  by (simp add: main_records_def main_valid_mode)

lemma main_trace_valid:
  "mode = ''only-correct'' \<or> mode = ''only-incorrect'' \<Longrightarrow>
   main_trace e mode n reps =
     trace (fst (example_loop e mode n reps (enumerate 0 (eval_instances e)) (setup_world, 0, [])))"
  by (simp add: main_trace_def main_valid_mode)

lemma retained_setup [simp]: "retained_examples (trace setup_world) = []"
  by (simp add: setup_world_def setup_events_def retained_examples_def)

lemma evaluated_setup [simp]: "evaluated_examples (trace setup_world) = []"
  by (simp add: setup_world_def setup_events_def evaluated_examples_def)

lemma retained_main:
  "mode = ''only-correct'' \<or> mode = ''only-incorrect'' \<Longrightarrow>
   retained_examples (main_trace e mode n reps) =
     map fst (take (nat n) (filter (passes_filter e mode) (enumerate 0 (eval_instances e))))"
  by (simp add: main_trace_valid retained_example_loop)

lemma evaluated_main:
  "mode = ''only-correct'' \<or> mode = ''only-incorrect'' \<Longrightarrow>
   evaluated_examples (main_trace e mode n reps) =
     quota_prefix (nat n) (passes_filter e mode) (enumerate 0 (eval_instances e))"
  by (simp add: main_trace_valid evaluated_example_loop)

lemma keys_main:
  "map grid_key (main_records e mode n reps) =
     concat (map (example_grid reps) (retained_examples (main_trace e mode n reps)))"
proof (cases "mode = ''only-correct'' \<or> mode = ''only-incorrect''")
  case True
  then show ?thesis
    by (simp add: retained_main) (simp add: main_records_valid keys_example_loop)
next
  case False
  then show ?thesis
    by (simp add: main_records_invalid main_trace_invalid retained_examples_def)
qed

lemma distinct_retained_main: "distinct (retained_examples (main_trace e mode n reps))"
proof (cases "mode = ''only-correct'' \<or> mode = ''only-incorrect''")
  case True
  have "distinct (map fst (enumerate 0 (eval_instances e)))" by simp
  then have "distinct (map fst (filter (passes_filter e mode) (enumerate 0 (eval_instances e))))"
    by (rule distinct_map_filter)
  then have "distinct (take (nat n)
      (map fst (filter (passes_filter e mode) (enumerate 0 (eval_instances e)))))"
    by (rule distinct_take)
  with True show ?thesis by (simp add: retained_main take_map)
next
  case False
  then show ?thesis by (simp add: main_trace_invalid retained_examples_def)
qed

lemma keys_of_example:
  "map grid_key (filter (\<lambda>r. test_index r = idx) (main_records e mode n reps)) =
     (if idx \<in> set (retained_examples (main_trace e mode n reps))
      then example_grid reps idx else [])"
proof -
  have "map grid_key (filter (\<lambda>r. test_index r = idx) (main_records e mode n reps)) =
      filter (\<lambda>k. fst k = idx) (map grid_key (main_records e mode n reps))"
    by (simp add: filter_map comp_def grid_key_def)
  then show ?thesis
    by (simp only: keys_main filter_concat_example_grid [OF distinct_retained_main])
qed

lemma grid_of_example:
  "map (\<lambda>r. (num_samples r, batch_size r, repetition r))
       (filter (\<lambda>r. test_index r = idx) (main_records e mode n reps)) =
     (if idx \<in> set (retained_examples (main_trace e mode n reps))
      then grid_points reps else [])"
proof -
  have "map (\<lambda>r. (num_samples r, batch_size r, repetition r))
       (filter (\<lambda>r. test_index r = idx) (main_records e mode n reps)) =
     map snd (map grid_key (filter (\<lambda>r. test_index r = idx) (main_records e mode n reps)))"
    by (simp add: grid_key_def comp_def)
  then show ?thesis
    by (simp only: keys_of_example) (simp add: example_grid_def comp_def)
qed

lemma test_index_main:
  "r \<in> set (main_records e mode n reps) \<Longrightarrow>
   test_index r \<in> set (retained_examples (main_trace e mode n reps))"
proof -
  assume "r \<in> set (main_records e mode n reps)"
  then have "grid_key r \<in> set (map grid_key (main_records e mode n reps))" by simp
  then have "fst (grid_key r) \<in> set (retained_examples (main_trace e mode n reps))"
    unfolding keys_main by (rule fst_concat_example_grid)
  then show ?thesis by (simp add: grid_key_def)
qed

lemma test_index_set_main:
  "0 < reps \<Longrightarrow>
   test_index ` set (main_records e mode n reps) =
     set (retained_examples (main_trace e mode n reps))"
proof -
  assume "0 < reps"
  then have "fst ` set (map grid_key (main_records e mode n reps)) =
      set (retained_examples (main_trace e mode n reps))"
    unfolding keys_main by (rule fst_set_concat_example_grid)
  moreover have "fst ` set (map grid_key (main_records e mode n reps)) =
      test_index ` set (main_records e mode n reps)"
    by (simp add: image_image grid_key_def)
  ultimately show ?thesis by simp
qed

lemma length_quota_prefix: "length (quota_prefix k P xs) \<le> length xs"
  by (induction k P xs rule: quota_prefix.induct) simp_all

lemma set_quota_prefix: "set (quota_prefix k P xs) \<subseteq> set xs"
  by (induction k P xs rule: quota_prefix.induct) auto

lemma nth_quota_prefix:
  "j < length (quota_prefix k P xs) \<Longrightarrow> quota_prefix k P xs ! j = xs ! j"
proof (induction k P xs arbitrary: j rule: quota_prefix.induct)
  case (1 P xs)
  then show ?case by simp
next
  case (2 k P)
  then show ?case by simp
next
  case (3 k P x xs)
  then show ?case by (cases j) simp_all
qed

lemma evaluated_position:
  assumes "p \<in> set (quota_prefix k P (enumerate 0 xs))"
  shows "fst p < length (quota_prefix k P (enumerate 0 xs)) \<and> fst p < length xs \<and>
         snd p = xs ! fst p"
proof -
  let ?q = "quota_prefix k P (enumerate 0 xs)"
  from assms obtain j where j: "j < length ?q" and p: "?q ! j = p"
    by (auto simp add: in_set_conv_nth)
  have "length ?q \<le> length (enumerate 0 xs)" by (rule length_quota_prefix)
  with j have jx: "j < length xs" by simp
  from j have "?q ! j = enumerate 0 xs ! j" by (rule nth_quota_prefix)
  with jx p have "p = (j, xs ! j)" by (simp add: nth_enumerate_eq)
  with j jx show ?thesis by simp
qed

section \<open>The grid of a retained instance\<close>

text \<open>
  C1: for every instance that passes the filter, the records of that instance in the
  returned list are, in order and without gap or repetition, the grid points of the
  instance: 7 sample counts times 8 batch sizes times the repetitions
  \<open>0, \<dots>, num_repetitions - 1\<close> (none when \<open>num_repetitions\<close> is not positive).
\<close>

theorem one_record_per_grid_point:
  assumes "idx \<in> set (retained_examples (main_trace e mode num_examples_to_test num_repetitions))"
  shows "map grid_key (filter (\<lambda>r. test_index r = idx)
             (main_records e mode num_examples_to_test num_repetitions)) =
           example_grid num_repetitions idx \<and>
         length (filter (\<lambda>r. test_index r = idx)
             (main_records e mode num_examples_to_test num_repetitions)) =
           7 * 8 * nat num_repetitions \<and>
         distinct (example_grid num_repetitions idx)"
proof -
  let ?rs = "filter (\<lambda>r. test_index r = idx)
    (main_records e mode num_examples_to_test num_repetitions)"
  have keys: "map grid_key ?rs = example_grid num_repetitions idx"
    using assms by (simp only: keys_of_example if_True)
  have "length ?rs = length (map grid_key ?rs)" by simp
  also have "\<dots> = 7 * 8 * nat num_repetitions"
    by (simp only: keys) (simp add: example_grid_def length_grid_points)
  finally have "length ?rs = 7 * 8 * nat num_repetitions" .
  with keys show ?thesis by (simp add: distinct_example_grid)
qed

lemma demo_retained:
  "retained_examples (main_trace demo_env ''only-correct'' 2 1) = [0, 2]"
  by (simp add: retained_main)
    (simp add: demo_env_def demo_correct_def passes_filter_def skipped_by_filter_def enumerate_eq_zip)

theorem one_record_per_grid_point_witness:
  "length (filter (\<lambda>r. test_index r = 2) (main_records demo_env ''only-correct'' 2 1)) = 56"
  using one_record_per_grid_point [of 2 demo_env "''only-correct''" 2 1]
  by (simp add: demo_retained)

text \<open>
  C5: within a retained instance the records follow the nesting of the loops, sample
  count outermost, batch size in the middle, repetition innermost, which is the
  strictly ascending lexicographic order of (sample count, batch size, repetition).
\<close>

theorem records_in_grid_order:
  assumes "idx \<in> set (retained_examples (main_trace e mode num_examples_to_test num_repetitions))"
  shows "map (\<lambda>r. (num_samples r, batch_size r, repetition r))
             (filter (\<lambda>r. test_index r = idx)
                (main_records e mode num_examples_to_test num_repetitions)) =
           grid_points num_repetitions \<and>
         sorted_wrt grid_less
           (map (\<lambda>r. (num_samples r, batch_size r, repetition r))
              (filter (\<lambda>r. test_index r = idx)
                 (main_records e mode num_examples_to_test num_repetitions)))"
  using assms by (simp only: grid_of_example if_True sorted_grid_points simp_thms)

theorem records_in_grid_order_witness:
  "map (\<lambda>r. (num_samples r, batch_size r, repetition r))
     (filter (\<lambda>r. test_index r = 0) (main_records demo_env ''only-correct'' 2 1)) =
     grid_points 1 \<and>
   take 9 (grid_points 1) =
     [(700, 1, 0), (700, 2, 0), (700, 4, 0), (700, 8, 0), (700, 16, 0), (700, 32, 0),
      (700, 64, 0), (700, 128, 0), (800, 1, 0)]"
  using records_in_grid_order [of 0 demo_env "''only-correct''" 2 1]
  by (simp add: demo_retained) (simp add: grid_points_def sample_counts_def batch_sizes_def)

section \<open>The filter\<close>

lemma demo_evaluated:
  "evaluated_examples (main_trace demo_env ''only-correct'' 2 1) = [(0, 10), (1, 11), (2, 12)]"
  by (simp add: evaluated_main)
    (simp add: demo_env_def demo_correct_def passes_filter_def skipped_by_filter_def
      enumerate_eq_zip numeral_2_eq_2)

text \<open>
  C9: an instance whose correctness has been evaluated is left out exactly when the
  evaluation is the object \<^verbatim>\<open>False\<close> in mode \<^verbatim>\<open>only-correct\<close> or the object \<^verbatim>\<open>True\<close> in
  mode \<^verbatim>\<open>only-incorrect\<close>. If the evaluation is not a \<^verbatim>\<open>bool\<close>, the instance is swept in
  both modes.
\<close>

theorem filter_tests_identity:
  assumes "(idx, x) \<in> set (evaluated_examples (main_trace e mode num_examples_to_test num_repetitions))"
  shows "(idx \<in> set (retained_examples (main_trace e mode num_examples_to_test num_repetitions))
            \<longleftrightarrow>
          \<not> (mode = ''only-correct'' \<and> is_prediction_correct e x = PyBool False \<or>
             mode = ''only-incorrect'' \<and> is_prediction_correct e x = PyBool True)) \<and>
         (\<not> is_pybool (is_prediction_correct e x) \<longrightarrow>
          idx \<in> set (retained_examples (main_trace e mode num_examples_to_test num_repetitions)))"
proof -
  let ?tr = "main_trace e mode num_examples_to_test num_repetitions"
  let ?enum = "enumerate 0 (eval_instances e)"
  let ?P = "passes_filter e mode"
  let ?q = "quota_prefix (nat num_examples_to_test) ?P ?enum"
  have valid: "mode = ''only-correct'' \<or> mode = ''only-incorrect''"
  proof (rule ccontr)
    assume "\<not> (mode = ''only-correct'' \<or> mode = ''only-incorrect'')"
    then have "?tr = []" by (simp add: main_trace_invalid)
    with assms show False by (simp add: evaluated_examples_def)
  qed
  from assms valid have q: "(idx, x) \<in> set ?q" by (simp add: evaluated_main)
  have ret: "retained_examples ?tr = map fst (filter ?P ?q)"
    using valid by (simp add: retained_main filter_quota_prefix)
  have "idx \<in> set (retained_examples ?tr) \<longleftrightarrow> ?P (idx, x)"
  proof
    assume "idx \<in> set (retained_examples ?tr)"
    then obtain x' where x': "(idx, x') \<in> set ?q" and P: "?P (idx, x')"
      unfolding ret by auto
    from x' have "x' = eval_instances e ! idx" using evaluated_position by fastforce
    moreover from q have "x = eval_instances e ! idx" using evaluated_position by fastforce
    ultimately show "?P (idx, x)" using P by simp
  next
    assume "?P (idx, x)"
    with q have "(idx, x) \<in> set (filter ?P ?q)" by simp
    then have "fst (idx, x) \<in> fst ` set (filter ?P ?q)" by (rule imageI)
    then show "idx \<in> set (retained_examples ?tr)" unfolding ret by simp
  qed
  then have main: "idx \<in> set (retained_examples ?tr) \<longleftrightarrow>
      \<not> (mode = ''only-correct'' \<and> is_prediction_correct e x = PyBool False \<or>
         mode = ''only-incorrect'' \<and> is_prediction_correct e x = PyBool True)"
    by (simp add: passes_filter_def skipped_by_filter_def)
  moreover have "\<not> is_pybool (is_prediction_correct e x) \<longrightarrow>
      idx \<in> set (retained_examples ?tr)"
    unfolding main by auto
  ultimately show ?thesis by blast
qed

theorem filter_tests_identity_witness:
  "is_prediction_correct demo_env 12 = PyNone \<and>
   2 \<in> set (retained_examples (main_trace demo_env ''only-correct'' 2 1)) \<and>
   is_prediction_correct demo_env 11 = PyBool False \<and>
   1 \<notin> set (retained_examples (main_trace demo_env ''only-correct'' 2 1))"
  using filter_tests_identity [of 2 12 demo_env "''only-correct''" 2 1]
    filter_tests_identity [of 1 11 demo_env "''only-correct''" 2 1]
  by (simp add: demo_evaluated) (simp add: demo_env_def demo_correct_def)

section \<open>The invariants are kept\<close>

lemma saved_inv_emit:
  "saved_inv mode n (w, out) \<Longrightarrow> saved ev = [] \<Longrightarrow> saved_inv mode n (emit ev w, out)"
  by (simp add: saved_inv_def) (simp add: saved_files_def)

lemma saved_inv_grid_point:
  "saved_inv mode n st \<Longrightarrow> saved_inv mode n (grid_point e mode n idx inp c ns bs rep st)"
  by (simp add: saved_inv_def grid_point_def one_experiment_def get_dataloader_def emit_def
      Let_def split_beta record_file_name_def)
    (simp add: saved_files_def)

lemma saved_inv_grid_sweep:
  "saved_inv mode n st \<Longrightarrow> saved_inv mode n (grid_sweep e mode n reps idx inp c st)"
  by (rule grid_sweep_invariant [where I = "saved_inv mode n"]) (auto intro: saved_inv_grid_point)

lemma estimator_call_ok_other: "estimated ev = [] \<Longrightarrow> estimator_call_ok prev ev"
  by (cases ev) (simp_all add: estimator_call_ok_def)

lemma loader_inv_emit:
  "loader_inv (w, out) \<Longrightarrow> built ev = [] \<Longrightarrow> estimated ev = [] \<Longrightarrow> loader_inv (emit ev w, out)"
  by (simp add: loader_inv_def estimator_calls_ok_snoc estimator_call_ok_other)
    (simp add: built_loaders_def estimator_loaders_def)

lemma estimator_calls_ok_grid_point:
  assumes "estimator_calls_ok None tr"
  shows "estimator_calls_ok None
           (tr @ [GetDataloader TrainDataset bs True l, ComputeSTest l x ns pf wd,
                  SaveAndMirror r f])"
proof -
  let ?g = "GetDataloader TrainDataset bs True l"
  let ?c = "ComputeSTest l x ns pf wd"
  let ?s = "SaveAndMirror r f"
  have 1: "estimator_calls_ok None (tr @ [?g])"
    using assms by (simp add: estimator_calls_ok_snoc estimator_call_ok_def)
  have 2: "estimator_calls_ok None ((tr @ [?g]) @ [?c])"
    using 1 by (subst estimator_calls_ok_snoc) (simp add: estimator_call_ok_def)
  have 3: "estimator_calls_ok None (((tr @ [?g]) @ [?c]) @ [?s])"
    using 2 by (subst estimator_calls_ok_snoc) (simp add: estimator_call_ok_def)
  then show ?thesis by simp
qed

lemma loader_inv_grid_point:
  assumes "loader_inv st"
  shows "loader_inv (grid_point e mode n idx inp c ns bs rep st)"
proof -
  let ?st' = "grid_point e mode n idx inp c ns bs rep st"
  let ?l = "next_loader (fst st)"
  from assms have ok: "estimator_calls_ok None (trace (fst st))"
    and lt: "list_all (\<lambda>l. l < ?l) (built_loaders (trace (fst st)))"
    and db: "distinct (built_loaders (trace (fst st)))"
    and sub: "set (estimator_loaders (trace (fst st))) \<subseteq> set (built_loaders (trace (fst st)))"
    and de: "distinct (estimator_loaders (trace (fst st)))"
    and len: "length (estimator_loaders (trace (fst st))) = length (snd st)"
    by (simp_all add: loader_inv_def)
  have b: "built_loaders (trace (fst ?st')) = built_loaders (trace (fst st)) @ [?l]"
    by (simp add: trace_grid_point) (simp add: built_loaders_def)
  have es: "estimator_loaders (trace (fst ?st')) = estimator_loaders (trace (fst st)) @ [?l]"
    by (simp add: trace_grid_point) (simp add: estimator_loaders_def)
  from lt have fresh: "?l \<notin> set (built_loaders (trace (fst st)))"
    by (auto simp add: list_all_iff)
  with sub have fresh': "?l \<notin> set (estimator_loaders (trace (fst st)))" by blast
  have "estimator_calls_ok None (trace (fst ?st'))"
    unfolding trace_grid_point using ok by (rule estimator_calls_ok_grid_point)
  moreover have "list_all (\<lambda>l. l < next_loader (fst ?st')) (built_loaders (trace (fst ?st')))"
    using lt by (auto simp add: b next_loader_grid_point list_all_iff)
  moreover have "distinct (built_loaders (trace (fst ?st')))"
    using db fresh by (simp add: b)
  moreover have "set (estimator_loaders (trace (fst ?st'))) \<subseteq> set (built_loaders (trace (fst ?st')))"
    using sub by (auto simp add: b es)
  moreover have "distinct (estimator_loaders (trace (fst ?st')))"
    using de fresh' by (simp add: es)
  moreover have "length (estimator_loaders (trace (fst ?st'))) = length (snd ?st')"
    using len snd_grid_point [of e mode n idx inp c ns bs rep st] by (auto simp add: es)
  ultimately show ?thesis unfolding loader_inv_def by blast
qed

lemma loader_inv_grid_sweep:
  "loader_inv st \<Longrightarrow> loader_inv (grid_sweep e mode n reps idx inp c st)"
  by (rule grid_sweep_invariant [where I = loader_inv]) (auto intro: loader_inv_grid_point)




lemma saved_inv_setup: "saved_inv mode n (setup_world, [])"
  by (simp add: saved_inv_def setup_world_def setup_events_def saved_files_def)

lemma loader_inv_setup: "loader_inv (setup_world, [])"
  by (simp add: loader_inv_def setup_world_def setup_events_def built_loaders_def
      estimator_loaders_def estimator_call_ok_def)


lemma saved_main:
  "saved_files (main_trace e mode n reps) =
     map (\<lambda>r. (r, record_file_name mode n r)) (main_records e mode n reps)"
proof (cases "mode = ''only-correct'' \<or> mode = ''only-incorrect''")
  case True
  let ?R = "example_loop e mode n reps (enumerate 0 (eval_instances e)) (setup_world, 0, [])"
  have "saved_inv mode n (fst ?R, snd (snd ?R))"
    by (rule example_loop_invariant [where I = "saved_inv mode n"])
      (auto intro: saved_inv_setup saved_inv_emit saved_inv_grid_sweep)
  with True show ?thesis by (simp add: main_trace_valid main_records_valid saved_inv_def)
next
  case False
  then show ?thesis by (simp add: main_trace_invalid main_records_invalid saved_files_def)
qed

lemma loader_main:
  "estimator_calls_ok None (main_trace e mode n reps) \<and>
   distinct (built_loaders (main_trace e mode n reps)) \<and>
   set (estimator_loaders (main_trace e mode n reps)) \<subseteq>
     set (built_loaders (main_trace e mode n reps)) \<and>
   distinct (estimator_loaders (main_trace e mode n reps)) \<and>
   length (estimator_loaders (main_trace e mode n reps)) = length (main_records e mode n reps)"
proof (cases "mode = ''only-correct'' \<or> mode = ''only-incorrect''")
  case True
  let ?R = "example_loop e mode n reps (enumerate 0 (eval_instances e)) (setup_world, 0, [])"
  have "loader_inv (fst ?R, snd (snd ?R))"
    by (rule example_loop_invariant [where I = loader_inv])
      (auto intro: loader_inv_setup loader_inv_emit loader_inv_grid_sweep)
  with True show ?thesis by (simp add: main_trace_valid main_records_valid loader_inv_def)
next
  case False
  then show ?thesis
    by (simp add: main_trace_invalid main_records_invalid built_loaders_def
        estimator_loaders_def)
qed


lemma length_concat_example_grid:
  "length (concat (map (example_grid reps) js)) = length js * (7 * 8 * nat reps)"
  by (induction js) (simp_all add: example_grid_def length_grid_points)

lemma length_main_records:
  "length (main_records e mode n reps) =
     length (retained_examples (main_trace e mode n reps)) * (7 * 8 * nat reps)"
proof -
  have "length (main_records e mode n reps) = length (map grid_key (main_records e mode n reps))"
    by simp
  then show ?thesis by (simp only: keys_main length_concat_example_grid)
qed

lemma distinct_keys_main: "distinct (map grid_key (main_records e mode n reps))"
  unfolding keys_main by (rule distinct_concat_example_grid) (rule distinct_retained_main)







section \<open>The correctness flag, the file names, skipped instances and the loaders\<close>






text \<open>
  C6: every record of the returned list is saved once, in order, under the name
  \<^verbatim>\<open>stest.<mode>.<num_examples_to_test>.<test_index>.<num_samples>.<batch_size>.<repetition>.pth\<close>;
  the name is a function of these six values, two grid points of one run never get the
  same name, and the names saved in one run are pairwise different.
\<close>

theorem file_names_identify_grid_points:
  "saved_files (main_trace e mode num_examples_to_test num_repetitions) =
     map (\<lambda>r. (r, file_name mode num_examples_to_test
                    (test_index r) (num_samples r) (batch_size r) (repetition r)))
       (main_records e mode num_examples_to_test num_repetitions) \<and>
   distinct (map snd (saved_files (main_trace e mode num_examples_to_test num_repetitions))) \<and>
   file_name mode num_examples_to_test idx ns bs rep =
     ''stest.'' @ mode @ ''.'' @ str_int num_examples_to_test @ ''.'' @ str_int (int idx) @
     ''.'' @ str_int ns @ ''.'' @ str_int bs @ ''.'' @ str_int rep @ ''.pth'' \<and>
   (file_name mode num_examples_to_test idx ns bs rep =
      file_name mode num_examples_to_test idx' ns' bs' rep' \<longrightarrow>
    idx = idx' \<and> ns = ns' \<and> bs = bs' \<and> rep = rep')"
proof -
  let ?tr = "main_trace e mode num_examples_to_test num_repetitions"
  let ?rs = "main_records e mode num_examples_to_test num_repetitions"
  let ?name = "\<lambda>k. case k of (i, s, b, r) \<Rightarrow> file_name mode num_examples_to_test i s b r"
  have saved: "saved_files ?tr =
      map (\<lambda>r. (r, file_name mode num_examples_to_test
                    (test_index r) (num_samples r) (batch_size r) (repetition r))) ?rs"
    using saved_main [of e mode num_examples_to_test num_repetitions]
    by (simp add: record_file_name_def)
  have names: "map snd (saved_files ?tr) = map ?name (map grid_key ?rs)"
    unfolding saved by (simp add: grid_key_def comp_def)
  have "inj_on ?name (set (map grid_key ?rs))"
    by (rule inj_onI) (auto dest: file_name_inj)
  then have "distinct (map ?name (map grid_key ?rs))"
    using distinct_keys_main [of e mode num_examples_to_test num_repetitions]
    by (simp only: distinct_map simp_thms)
  then have dist: "distinct (map snd (saved_files ?tr))" by (simp only: names)
  have inj: "file_name mode num_examples_to_test idx ns bs rep =
      file_name mode num_examples_to_test idx' ns' bs' rep' \<longrightarrow>
      idx = idx' \<and> ns = ns' \<and> bs = bs' \<and> rep = rep'"
    using file_name_inj by blast
  from saved dist inj show ?thesis by (simp add: file_name_def)
qed

theorem file_names_identify_grid_points_witness:
  "file_name ''only-correct'' 2 3 1300 128 2 = ''stest.only-correct.2.3.1300.128.2.pth'' \<and>
   file_name ''only-correct'' 2 3 1300 128 2 \<noteq> file_name ''only-correct'' 2 31 300 128 2 \<and>
   distinct (map snd (saved_files (main_trace demo_env ''only-correct'' 2 1)))"
proof -
  note t = file_names_identify_grid_points
    [of demo_env "''only-correct''" 2 1 3 1300 128 2 31 300 128 2]
  from t have form: "file_name ''only-correct'' 2 3 1300 128 2 =
      ''stest.'' @ ''only-correct'' @ ''.'' @ str_int 2 @ ''.'' @ str_int (int 3) @
      ''.'' @ str_int 1300 @ ''.'' @ str_int 128 @ ''.'' @ str_int 2 @ ''.pth''"
    by (rule conjunct2 [THEN conjunct2, THEN conjunct1])
  have name: "file_name ''only-correct'' 2 3 1300 128 2 = ''stest.only-correct.2.3.1300.128.2.pth''"
    unfolding form by (simp add: str_int_def str_nat.simps digit_char_def)
  from t have "file_name ''only-correct'' 2 3 1300 128 2 =
      file_name ''only-correct'' 2 31 300 128 2 \<longrightarrow>
      (3::nat) = 31 \<and> (1300::int) = 300 \<and> (128::int) = 128 \<and> (2::int) = 2"
    by (rule conjunct2 [THEN conjunct2, THEN conjunct2])
  then have differ: "file_name ''only-correct'' 2 3 1300 128 2 \<noteq>
      file_name ''only-correct'' 2 31 300 128 2"
    by auto
  from t have "distinct (map snd (saved_files (main_trace demo_env ''only-correct'' 2 1)))"
    by (rule conjunct2 [THEN conjunct1])
  with name differ show ?thesis by (intro conjI)
qed

text \<open>
  C7: when the filter skips an instance, the loop goes on with the same counter and the
  same list, and the only calls made for the instance are its fetch and its correctness
  evaluation. In a run of \<^verbatim>\<open>main\<close> no swept instance, no record and no saved object
  carries the index of an instance the filter skips.
\<close>

theorem skip_changes_nothing:
  assumes "skipped_by_filter mode (is_prediction_correct e inp)"
  shows "(num_examples_tested < num_examples_to_test \<longrightarrow>
          example_loop e mode num_examples_to_test num_repetitions ((idx, inp) # rest)
            (w, num_examples_tested, output_collections) =
          example_loop e mode num_examples_to_test num_repetitions rest
            (w\<lparr>trace := trace w @ [NextEvalInstance idx, IsPredictionCorrect idx inp]\<rparr>,
             num_examples_tested, output_collections)) \<and>
         (\<forall>i. i < length (eval_instances e) \<and> eval_instances e ! i = inp \<longrightarrow>
            i \<notin> set (retained_examples (main_trace e mode num_examples_to_test num_repetitions)) \<and>
            i \<notin> test_index ` set (main_records e mode num_examples_to_test num_repetitions) \<and>
            i \<notin> test_index ` fst `
                  set (saved_files (main_trace e mode num_examples_to_test num_repetitions)))"
proof -
  let ?tr = "main_trace e mode num_examples_to_test num_repetitions"
  let ?rs = "main_records e mode num_examples_to_test num_repetitions"
  have step: "num_examples_tested < num_examples_to_test \<longrightarrow>
      example_loop e mode num_examples_to_test num_repetitions ((idx, inp) # rest)
        (w, num_examples_tested, output_collections) =
      example_loop e mode num_examples_to_test num_repetitions rest
        (w\<lparr>trace := trace w @ [NextEvalInstance idx, IsPredictionCorrect idx inp]\<rparr>,
         num_examples_tested, output_collections)"
    using assms by (simp add: example_loop_skip) (simp add: emit_def)
  from assms have valid: "mode = ''only-correct'' \<or> mode = ''only-incorrect''"
    by (auto simp add: skipped_by_filter_def)
  have not_retained: "i \<notin> set (retained_examples ?tr)"
    if i: "i < length (eval_instances e)" "eval_instances e ! i = inp" for i
  proof
    assume "i \<in> set (retained_examples ?tr)"
    then obtain x where "(i, x) \<in> set (take (nat num_examples_to_test)
        (filter (passes_filter e mode) (enumerate 0 (eval_instances e))))"
      using valid by (auto simp add: retained_main)
    then have "(i, x) \<in> set (filter (passes_filter e mode) (enumerate 0 (eval_instances e)))"
      by (rule in_set_takeD)
    then have "x = eval_instances e ! i" and "passes_filter e mode (i, x)"
      by (auto simp add: in_set_enumerate_eq)
    with i assms show False by (simp add: passes_filter_def)
  qed
  have saved: "fst ` set (saved_files ?tr) = set ?rs"
    by (simp add: saved_main image_image)
  have "i \<notin> set (retained_examples ?tr) \<and> i \<notin> test_index ` set ?rs \<and>
      i \<notin> test_index ` fst ` set (saved_files ?tr)"
    if i: "i < length (eval_instances e)" "eval_instances e ! i = inp" for i
    using not_retained [OF i] test_index_main [of _ e mode num_examples_to_test num_repetitions]
    unfolding saved by blast
  with step show ?thesis by blast
qed

theorem skip_changes_nothing_witness:
  "example_loop demo_env ''only-correct'' 2 1 [(1, 11)] (setup_world, 0, []) =
     (setup_world\<lparr>trace := setup_events @ [NextEvalInstance 1, IsPredictionCorrect 1 11]\<rparr>,
      0, []) \<and>
   1 \<notin> test_index ` set (main_records demo_env ''only-correct'' 2 1) \<and>
   1 \<notin> test_index ` fst ` set (saved_files (main_trace demo_env ''only-correct'' 2 1))"
  using skip_changes_nothing [of "''only-correct''" demo_env 11 0 2 1 1 "[]" setup_world "[]"]
  by (simp add: skipped_by_filter_def demo_env_def demo_correct_def setup_world_def)

text \<open>
  C8: \<^verbatim>\<open>one_experiment\<close> builds a loader over the training set, with the batch size and
  the order flag it is given, and hands that loader to the estimator in the next call.
  In a run of \<^verbatim>\<open>main\<close> every estimator call comes right after the construction, in
  random order, of its own loader; no loader is built twice or given to two estimator
  calls, and there is one estimator call per record.
\<close>

theorem fresh_loader_per_estimator_call:
  "trace (snd (one_experiment e x bs rnd ns w)) =
     trace w @
     [GetDataloader TrainDataset bs rnd (next_loader w),
      ComputeSTest (next_loader w) x ns
        (map fst (filter (\<lambda>(n, p). \<not> p) (named_parameters e)))
        ([''bias'', ''LayerNorm.weight''] @
         map fst (filter (\<lambda>(n, p). \<not> p) (named_parameters e)))] \<and>
   estimator_calls_ok None (main_trace e mode num_examples_to_test num_repetitions) \<and>
   distinct (built_loaders (main_trace e mode num_examples_to_test num_repetitions)) \<and>
   distinct (estimator_loaders (main_trace e mode num_examples_to_test num_repetitions)) \<and>
   set (estimator_loaders (main_trace e mode num_examples_to_test num_repetitions)) \<subseteq>
     set (built_loaders (main_trace e mode num_examples_to_test num_repetitions)) \<and>
   length (estimator_loaders (main_trace e mode num_examples_to_test num_repetitions)) =
     length (main_records e mode num_examples_to_test num_repetitions)"
proof -
  have "trace (snd (one_experiment e x bs rnd ns w)) =
     trace w @
     [GetDataloader TrainDataset bs rnd (next_loader w),
      ComputeSTest (next_loader w) x ns
        (map fst (filter (\<lambda>(n, p). \<not> p) (named_parameters e)))
        ([''bias'', ''LayerNorm.weight''] @
         map fst (filter (\<lambda>(n, p). \<not> p) (named_parameters e)))]"
    by (simp add: one_experiment_def get_dataloader_def emit_def Let_def)
  with loader_main [of e mode num_examples_to_test num_repetitions] show ?thesis by blast
qed

theorem fresh_loader_per_estimator_call_witness:
  "estimator_calls_ok None (main_trace demo_env ''only-correct'' 2 1) \<and>
   distinct (estimator_loaders (main_trace demo_env ''only-correct'' 2 1)) \<and>
   length (estimator_loaders (main_trace demo_env ''only-correct'' 2 1)) = 112"
  using fresh_loader_per_estimator_call [of demo_env 10 1 True 700 setup_world "''only-correct''" 2 1]
  by (simp add: length_main_records demo_retained)

section \<open>The quota\<close>

lemma fetched_setup [simp]: "fetched_examples (trace setup_world) = []"
  by (simp add: setup_world_def setup_events_def fetched_examples_def)

lemma fetched_main:
  "mode = ''only-correct'' \<or> mode = ''only-incorrect'' \<Longrightarrow>
   fetched_examples (main_trace e mode n reps) =
     map fst (take (Suc (length (quota_prefix (nat n) (passes_filter e mode)
                                   (enumerate 0 (eval_instances e)))))
               (enumerate 0 (eval_instances e)))"
  by (simp add: main_trace_valid fetched_example_loop)

lemma map_fst_take_enumerate:
  "map fst (take k (enumerate 0 xs)) = [0..<min (length xs) k]"
proof -
  have "map fst (take k (enumerate 0 xs)) = take k (map fst (enumerate 0 xs))"
    by (simp only: take_map)
  also have "\<dots> = take k [0..<length xs]" by simp
  also have "\<dots> = [0..<min (length xs) k]" by (simp add: take_upt min_def)
  finally show ?thesis .
qed

text \<open>
  C4: with a valid mode, the instances that are swept are the first
  \<open>num_examples_to_test\<close> instances that pass the filter, in order: never more than the
  quota, and exactly the quota when that many instances pass. The instances whose
  correctness is evaluated are the evaluation sequence up to and including the last
  swept instance of a full quota, each of them preceded by fewer than
  \<open>num_examples_to_test\<close> passing instances. The loop fetches these instances and at most
  one more, the one at which it breaks; the instances after that one are never fetched.
  The records of the returned list are the grids of the swept instances and nothing
  else: each swept instance contributes its 7 * 8 * \<open>num_repetitions\<close> records.
\<close>

theorem quota_halts_the_loop:
  assumes "mode = ''only-correct'' \<or> mode = ''only-incorrect''"
  shows "retained_examples (main_trace e mode num_examples_to_test num_repetitions) =
           map fst (take (nat num_examples_to_test)
             (filter (passes_filter e mode) (enumerate 0 (eval_instances e)))) \<and>
         int (length (retained_examples (main_trace e mode num_examples_to_test num_repetitions)))
           \<le> max 0 num_examples_to_test \<and>
         (0 \<le> num_examples_to_test \<and>
          num_examples_to_test \<le>
            int (length (filter (passes_filter e mode) (enumerate 0 (eval_instances e)))) \<longrightarrow>
          int (length (retained_examples
                 (main_trace e mode num_examples_to_test num_repetitions))) =
            num_examples_to_test) \<and>
         evaluated_examples (main_trace e mode num_examples_to_test num_repetitions) =
           quota_prefix (nat num_examples_to_test) (passes_filter e mode)
             (enumerate 0 (eval_instances e)) \<and>
         (\<forall>p \<in> set (evaluated_examples (main_trace e mode num_examples_to_test num_repetitions)).
            length (filter (passes_filter e mode) (take (fst p) (enumerate 0 (eval_instances e))))
              < nat num_examples_to_test) \<and>
         retained_examples (main_trace e mode num_examples_to_test num_repetitions) =
           map fst (filter (passes_filter e mode)
             (evaluated_examples (main_trace e mode num_examples_to_test num_repetitions))) \<and>
         fetched_examples (main_trace e mode num_examples_to_test num_repetitions) =
           [0 ..< min (length (eval_instances e))
                    (Suc (length (evaluated_examples
                       (main_trace e mode num_examples_to_test num_repetitions))))] \<and>
         map grid_key (filter (\<lambda>r. test_index r = idx)
             (main_records e mode num_examples_to_test num_repetitions)) =
           (if idx \<in> set (retained_examples
                            (main_trace e mode num_examples_to_test num_repetitions))
            then example_grid num_repetitions idx else []) \<and>
         test_index ` set (main_records e mode num_examples_to_test num_repetitions) \<subseteq>
           set (retained_examples (main_trace e mode num_examples_to_test num_repetitions)) \<and>
         length (main_records e mode num_examples_to_test num_repetitions) =
           length (retained_examples (main_trace e mode num_examples_to_test num_repetitions)) *
           (7 * 8 * nat num_repetitions)"
proof -
  let ?tr = "main_trace e mode num_examples_to_test num_repetitions"
  let ?rs = "main_records e mode num_examples_to_test num_repetitions"
  let ?enum = "enumerate 0 (eval_instances e)"
  let ?P = "passes_filter e mode"
  have a: "retained_examples ?tr = map fst (take (nat num_examples_to_test) (filter ?P ?enum))"
    using assms by (rule retained_main)
  have b: "int (length (retained_examples ?tr)) \<le> max 0 num_examples_to_test"
    unfolding a by simp
  have c: "0 \<le> num_examples_to_test \<and>
      num_examples_to_test \<le> int (length (filter ?P ?enum)) \<longrightarrow>
      int (length (retained_examples ?tr)) = num_examples_to_test"
    unfolding a by (auto simp add: min_def)
  have ev: "evaluated_examples ?tr = quota_prefix (nat num_examples_to_test) ?P ?enum"
    using assms by (rule evaluated_main)
  have d: "\<forall>p \<in> set (evaluated_examples ?tr).
      length (filter ?P (take (fst p) ?enum)) < nat num_examples_to_test"
  proof
    fix p
    assume "p \<in> set (evaluated_examples ?tr)"
    then have "p \<in> set (quota_prefix (nat num_examples_to_test) ?P ?enum)"
      by (simp only: ev)
    then have "fst p < length (quota_prefix (nat num_examples_to_test) ?P ?enum)"
      using evaluated_position by blast
    then show "length (filter ?P (take (fst p) ?enum)) < nat num_examples_to_test"
      by (rule quota_prefix_halts)
  qed
  have r: "retained_examples ?tr = map fst (filter ?P (evaluated_examples ?tr))"
    by (simp only: a ev filter_quota_prefix)
  have "fetched_examples ?tr =
      map fst (take (Suc (length (quota_prefix (nat num_examples_to_test) ?P ?enum))) ?enum)"
    using assms by (rule fetched_main)
  then have f: "fetched_examples ?tr =
      [0 ..< min (length (eval_instances e)) (Suc (length (evaluated_examples ?tr)))]"
    by (simp only: ev map_fst_take_enumerate)
  have g: "map grid_key (filter (\<lambda>r. test_index r = idx) ?rs) =
      (if idx \<in> set (retained_examples ?tr) then example_grid num_repetitions idx else [])"
    by (rule keys_of_example)
  have h: "test_index ` set ?rs \<subseteq> set (retained_examples ?tr)"
    using test_index_main by blast
  have i: "length ?rs = length (retained_examples ?tr) * (7 * 8 * nat num_repetitions)"
    by (rule length_main_records)
  from a b c ev d r f g h i show ?thesis by (intro conjI)
qed

theorem quota_halts_the_loop_witness:
  "retained_examples (main_trace demo_env ''only-correct'' 1 1) = [0] \<and>
   evaluated_examples (main_trace demo_env ''only-correct'' 1 1) = [(0, 10)] \<and>
   fetched_examples (main_trace demo_env ''only-correct'' 1 1) = [0, 1] \<and>
   length (eval_instances demo_env) = 4 \<and>
   length (main_records demo_env ''only-correct'' 1 1) = 56"
proof -
  have m: "''only-correct'' = ''only-correct'' \<or> ''only-correct'' = ''only-incorrect''"
    by simp
  note t = quota_halts_the_loop
    [OF m, where e = demo_env and num_examples_to_test = 1 and num_repetitions = 1 and idx = 0]
  let ?tr = "main_trace demo_env ''only-correct'' 1 1"
  have P0: "passes_filter demo_env ''only-correct'' (0, 10)"
    by (simp add: passes_filter_def skipped_by_filter_def demo_env_def demo_correct_def)
  have len4: "length (eval_instances demo_env) = 4" by (simp add: demo_env_def)
  have enum: "enumerate 0 (eval_instances demo_env) = [(0, 10), (1, 11), (2, 12), (3, 13)]"
    by (simp add: demo_env_def enumerate_eq_zip upt_rec)
  from t have "evaluated_examples ?tr =
      quota_prefix (nat 1) (passes_filter demo_env ''only-correct'')
        (enumerate 0 (eval_instances demo_env))"
    by blast
  then have ev: "evaluated_examples ?tr = [(0, 10)]" by (simp add: enum P0)
  from t have "retained_examples ?tr =
      map fst (filter (passes_filter demo_env ''only-correct'') (evaluated_examples ?tr))"
    by blast
  then have ret: "retained_examples ?tr = [0]" by (simp add: ev P0)
  from t have "fetched_examples ?tr =
      [0 ..< min (length (eval_instances demo_env)) (Suc (length (evaluated_examples ?tr)))]"
    by blast
  then have "fetched_examples ?tr = [0 ..< min 4 (Suc (length [(0::nat, 10::nat)]))]"
    by (simp only: ev len4)
  then have fe: "fetched_examples ?tr = [0, 1]" by (simp add: upt_rec)
  from t have "length (main_records demo_env ''only-correct'' 1 1) =
      length (retained_examples ?tr) * (7 * 8 * nat 1)"
    by blast
  then have len: "length (main_records demo_env ''only-correct'' 1 1) = 56" by (simp add: ret)
  from ret ev fe len4 len show ?thesis by (intro conjI)
qed

end
